theory Spec2Isabelle
  imports Complex_Main "HOL-Library.Word" "HOL-Library.Sublist"
begin

unbundle bit_operations_syntax

section \<open>ADT74x0 temperature readers\<close>

text \<open>
  Two programs are embedded: \<^verbatim>\<open>adt74x0.c\<close>, which talks to the kernel's i2c-dev
  character device (called the generic variant below), and \<^verbatim>\<open>adt74x0b.c\<close>, which
  talks to the bcm2835 library (the hardware-library variant). The functions of the
  second file carry the suffix \<open>b\<close>, as the file does.

  C's \<^verbatim>\<open>int\<close> and \<^verbatim>\<open>int32_t\<close> are \<open>32 word\<close> read through \<open>sint\<close>,
  \<^verbatim>\<open>int16_t\<close> is \<open>16 word\<close>, \<^verbatim>\<open>int8_t\<close> and \<^verbatim>\<open>uint8_t\<close> are \<open>8 word\<close>.
  A conversion to a narrower type keeps the low bits (\<open>ucast\<close>), the promotion of a
  signed value to \<^verbatim>\<open>int\<close> extends the sign (\<open>scast\<close>), that of an unsigned one
  extends with zeros (\<open>ucast\<close>). Loop counters and bus addresses stay in \<open>0..127\<close> and
  are natural numbers.

  The value \<^verbatim>\<open>t128 / 128.0\<close> is a \<^verbatim>\<open>double\<close>. Every quotient \<open>k / 128\<close> with
  \<open>- 2^15 \<le> k < 2^15\<close> is a binary fraction of at most 16 significant bits, so the
  division is exact and the result is the rational number \<open>k / 128\<close>; temperatures
  are therefore of type \<open>rat\<close>.
\<close>

subsection \<open>Registers\<close>

definition T_MSB :: "8 word" where "T_MSB = 0x00"
definition T_LSB :: "8 word" where "T_LSB = 0x01"
definition STATUS :: "8 word" where "STATUS = 0x02"
definition CONFIG :: "8 word" where "CONFIG = 0x03"
definition IDREG :: "8 word" where "IDREG = 0x0b"
definition RESET :: "8 word" where "RESET = 0x2f"

definition I2C_ADDRS :: nat where "I2C_ADDRS = 128"

type_synonym addr = nat

subsection \<open>The bus, standard output and the transport's answers\<close>

text \<open>
  Everything the programs do to the outside is recorded: \<open>trace\<close> lists the calls that
  reach the bus or the clock, in order, \<open>out\<close> lists the lines printed, one per
  \<^verbatim>\<open>printf\<close>. A write or a read goes to whatever address was selected last
  (\<open>slave\<close>), which is \<open>None\<close> until the first successful selection.
\<close>

datatype bus_op =
    Open string
  | Close
  | LibInit
  | I2cBegin
  | SetBaudrate nat
  | I2cEnd
  | LibClose
  | Select addr
  | Write "addr option" "8 word list"
  | Read "addr option" "8 word" nat
  | Wait nat

datatype line =
    Scanning string
  | UnableToOpen string
  | HasID addr "32 word"
  | ScanDebug addr "32 word"
  | ErrorLine addr "32 word"
  | TempLine addr "rat option"

record world =
  slave :: "addr option"
  trace :: "bus_op list"
  out :: "line list"

definition start :: world where
  "start = \<lparr>slave = None, trace = [], out = []\<rparr>"

definition emit :: "bus_op \<Rightarrow> world \<Rightarrow> world" where
  "emit e w = w\<lparr>trace := trace w @ [e]\<rparr>"

definition printf :: "line \<Rightarrow> world \<Rightarrow> world" where
  "printf l w = w\<lparr>out := out w @ [l]\<rparr>"

text \<open>
  The address an operation is directed at, and whether it is an operation on a device
  at all (a selection, a write or a read) rather than on the handle or the clock.
\<close>

fun target :: "bus_op \<Rightarrow> addr option" where
  "target (Select a) = Some a"
| "target (Write s bs) = s"
| "target (Read s r n) = s"
| "target _ = None"

fun addressed :: "bus_op \<Rightarrow> bool" where
  "addressed (Select a) = True"
| "addressed (Write s bs) = True"
| "addressed (Read s r n) = True"
| "addressed _ = False"

definition window :: "addr \<Rightarrow> bool" where
  "window i \<longleftrightarrow> 0x48 \<le> i \<and> i \<le> 0x4b"

text \<open>
  The transport is a black box. Its answers are given as a table: one answer for each
  call site of the program and each address the enclosing function was called with.
  Every call site runs at most once per address in a run, so any behaviour of a real
  transport during one run is described by some table.

  For the kernel device the answers are the \<^verbatim>\<open>int\<close> results of \<^verbatim>\<open>open\<close>,
  \<^verbatim>\<open>ioctl\<close> and the \<^verbatim>\<open>i2c_smbus_*\<close> calls: negative on failure, otherwise the
  data read.
\<close>

record i2c_dev =
  k_open :: "32 word"
  k_ioctl_init :: "addr \<Rightarrow> 32 word"
  k_reset :: "addr \<Rightarrow> 32 word"
  k_idreg :: "addr \<Rightarrow> 32 word"
  k_config :: "addr \<Rightarrow> 32 word"
  k_ioctl_read :: "addr \<Rightarrow> 32 word"
  k_t_msb :: "addr \<Rightarrow> 32 word"

text \<open>
  For the bcm2835 library the answers are the \<^verbatim>\<open>uint8_t\<close> reason codes of
  \<^verbatim>\<open>bcm2835_i2c_write\<close> and \<^verbatim>\<open>bcm2835_i2c_read_register_rs\<close> (0 is success),
  together with the bytes a read leaves in the buffer.
\<close>

record bcm2835 =
  b_reset :: "addr \<Rightarrow> 8 word"
  b_config :: "addr \<Rightarrow> 8 word"
  b_idreg :: "addr \<Rightarrow> 8 word \<times> 8 word"
  b_t_msb :: "addr \<Rightarrow> 8 word \<times> 8 word \<times> 8 word"

subsection \<open>Transport calls\<close>

text \<open>The first argument of each call is the transport's answer to it.\<close>

definition ioctl_I2C_SLAVE :: "32 word \<Rightarrow> addr \<Rightarrow> world \<Rightarrow> 32 word \<times> world" where
  "ioctl_I2C_SLAVE r a w =
     (r, (emit (Select a) w)\<lparr>slave := (if r <s 0 then slave w else Some a)\<rparr>)"

definition i2c_smbus_write_byte :: "32 word \<Rightarrow> 8 word \<Rightarrow> world \<Rightarrow> 32 word \<times> world" where
  "i2c_smbus_write_byte r v w = (r, emit (Write (slave w) [v]) w)"

definition i2c_smbus_read_byte_data :: "32 word \<Rightarrow> 8 word \<Rightarrow> world \<Rightarrow> 32 word \<times> world" where
  "i2c_smbus_read_byte_data r reg w = (r, emit (Read (slave w) reg 1) w)"

definition i2c_smbus_write_byte_data ::
  "32 word \<Rightarrow> 8 word \<Rightarrow> 8 word \<Rightarrow> world \<Rightarrow> 32 word \<times> world" where
  "i2c_smbus_write_byte_data r reg v w = (r, emit (Write (slave w) [reg, v]) w)"

definition i2c_smbus_read_word_data :: "32 word \<Rightarrow> 8 word \<Rightarrow> world \<Rightarrow> 32 word \<times> world" where
  "i2c_smbus_read_word_data r reg w = (r, emit (Read (slave w) reg 2) w)"

definition usleep :: "nat \<Rightarrow> world \<Rightarrow> world" where
  "usleep us w = emit (Wait us) w"

definition bcm2835_i2c_setSlaveAddress :: "addr \<Rightarrow> world \<Rightarrow> world" where
  "bcm2835_i2c_setSlaveAddress a w = (emit (Select a) w)\<lparr>slave := Some a\<rparr>"

definition bcm2835_i2c_write :: "8 word \<Rightarrow> 8 word list \<Rightarrow> world \<Rightarrow> 8 word \<times> world" where
  "bcm2835_i2c_write r bs w = (r, emit (Write (slave w) bs) w)"

definition bcm2835_i2c_read_register_rs :: "'r \<Rightarrow> 8 word \<Rightarrow> nat \<Rightarrow> world \<Rightarrow> 'r \<times> world" where
  "bcm2835_i2c_read_register_rs r reg n w = (r, emit (Read (slave w) reg n) w)"

definition bcm2835_delay :: "nat \<Rightarrow> world \<Rightarrow> world" where
  "bcm2835_delay ms w = emit (Wait (1000 * ms)) w"

subsection \<open>Decoding the temperature\<close>

text \<open>
  \<^verbatim>\<open>*temp = t128 / 128.0\<close> for an \<^verbatim>\<open>int16_t t128\<close>.
\<close>

definition celsius :: "16 word \<Rightarrow> rat" where
  "celsius t128 = rat_of_int (sint t128) / 128"

text \<open>
  The generic variant, from the result of \<^verbatim>\<open>i2c_smbus_read_word_data\<close>:
  \<^verbatim>\<open>int16_t lo = (t_raw & 0xff00) >> 8; int16_t hi = (t_raw & 0x00ff);
  int16_t t128 = hi << 8 | lo;\<close>
\<close>

definition t128_of_word :: "32 word \<Rightarrow> 16 word" where
  "t128_of_word t_raw =
     (let lo = (ucast (signed_drop_bit 8 (t_raw AND 0xff00)) :: 16 word);
          hi = (ucast (t_raw AND 0x00ff) :: 16 word)
      in ucast (push_bit 8 (scast hi :: 32 word) OR scast lo))"

text \<open>
  The hardware-library variant, from the buffer:
  \<^verbatim>\<open>int16_t hi = buff[0]; int16_t lo = buff[1]; int16_t t128 = hi << 8 | lo;\<close>
\<close>

definition t128_of_buff :: "8 word \<Rightarrow> 8 word \<Rightarrow> 16 word" where
  "t128_of_buff b0 b1 =
     (let hi = (ucast b0 :: 16 word);
          lo = (ucast b1 :: 16 word)
      in ucast (push_bit 8 (scast hi :: 32 word) OR scast lo))"

text \<open>
  An SMBus word read returns the first byte on the wire as the low byte of the word and
  the second as the high byte.
\<close>

definition smbus_word :: "8 word \<Rightarrow> 8 word \<Rightarrow> 32 word" where
  "smbus_word first second = ucast first OR push_bit 8 (ucast second)"


subsection \<open>The generic variant (adt74x0.c)\<close>

text \<open>
  The block under \<^verbatim>\<open>#ifdef GOOD_I2C_BUS\<close>; the result 0 stands for falling through
  to the statements after \<^verbatim>\<open>#endif\<close>.
\<close>

definition good_i2c_bus_block :: "i2c_dev \<Rightarrow> addr \<Rightarrow> world \<Rightarrow> 32 word \<times> world" where
  "good_i2c_bus_block dev addr w0 =
     (let (stat, w1) = i2c_smbus_read_byte_data (k_idreg dev addr) IDREG w0 in
      if stat <s 0 then (- 3, w1)
      else let w2 = printf (HasID addr stat) w1 in
        if stat AND 0xf8 \<noteq> 0xc8 then (- 4, w2) else (0, w2))"

definition init_adt74x0 :: "bool \<Rightarrow> i2c_dev \<Rightarrow> addr \<Rightarrow> world \<Rightarrow> 32 word \<times> world" where
  "init_adt74x0 good_i2c_bus dev addr w0 =
     (let (r1, w1) = ioctl_I2C_SLAVE (k_ioctl_init dev addr) addr w0 in
      if r1 <s 0 then (- 1, w1)
      else let (r2, w2) = i2c_smbus_write_byte (k_reset dev addr) RESET w1 in
        if r2 <s 0 then (- 2, w2)
        else let w3 = usleep 250 w2;
                 (e, w4) = (if good_i2c_bus then good_i2c_bus_block dev addr w3 else (0, w3)) in
          if e \<noteq> 0 then (e, w4)
          else let (r5, w5) = i2c_smbus_write_byte_data (k_config dev addr) CONFIG 0x80 w4 in
            if r5 <s 0 then (- 5, w5) else (0, w5))"

text \<open>
  \<^verbatim>\<open>temp\<close> is the content of the caller's \<^verbatim>\<open>double\<close>: \<open>None\<close> while it is
  indeterminate, \<open>Some t\<close> once a value has been stored.
\<close>

definition read_adt74x0 ::
  "i2c_dev \<Rightarrow> addr \<Rightarrow> rat option \<Rightarrow> world \<Rightarrow> 32 word \<times> rat option \<times> world" where
  "read_adt74x0 dev addr temp w0 =
     (let (r1, w1) = ioctl_I2C_SLAVE (k_ioctl_read dev addr) addr w0 in
      if r1 <s 0 then (- 1, temp, w1)
      else let (t_raw, w2) = i2c_smbus_read_word_data (k_t_msb dev addr) T_MSB w1 in
        if t_raw <s 0 then (- 6, temp, w2)
        else (0, Some (celsius (t128_of_word t_raw)), w2))"

definition fill_devs :: "8 word list \<Rightarrow> 8 word list" where
  "fill_devs devs =
     fold (\<lambda>i d. d[i := (if 0x48 \<le> i \<and> i \<le> 0x4b then 1 else 0)]) [0..<I2C_ADDRS] devs"

definition init_step ::
  "bool \<Rightarrow> i2c_dev \<Rightarrow> nat \<Rightarrow> 8 word list \<times> world \<Rightarrow> 8 word list \<times> world" where
  "init_step good_i2c_bus dev i s =
     (case s of (devs, w) \<Rightarrow>
        if devs ! i \<le>s 0 then (devs, w)
        else let (stat, w') = init_adt74x0 good_i2c_bus dev i w in
          ((if stat <s 0 then devs[i := ucast stat] else devs), w'))"

definition read_step :: "i2c_dev \<Rightarrow> 8 word list \<Rightarrow> nat \<Rightarrow> world \<Rightarrow> world" where
  "read_step dev devs i w =
     (if devs ! i \<le>s 0 then w
      else let (stat, t, w') = read_adt74x0 dev i None w in
        if stat <s 0 then printf (ErrorLine i stat) w' else printf (TempLine i t) w')"

text \<open>
  \<^verbatim>\<open>main\<close> returns the exit status, the array \<^verbatim>\<open>devs\<close> as it stands at the end
  (empty when the run stops before the array exists) and the recorded world. The array
  is indeterminate before the first loop, which writes every cell; the model starts it
  from zeros.
\<close>

definition main :: "bool \<Rightarrow> i2c_dev \<Rightarrow> string list \<Rightarrow> nat \<times> 8 word list \<times> world" where
  "main good_i2c_bus dev argv =
     (let filename = (if length argv > 1 then argv ! 1 else ''/dev/i2c-0'');
          w0 = printf (Scanning filename) start;
          w1 = emit (Open filename) w0 in
      if k_open dev <s 0 then (1, [], printf (UnableToOpen filename) w1)
      else let devs0 = fill_devs (replicate I2C_ADDRS 0);
               (devs, w2) = fold (init_step good_i2c_bus dev) [0..<I2C_ADDRS] (devs0, w1);
               w3 = usleep 1000000 w2;
               w4 = fold (read_step dev devs) [0..<I2C_ADDRS] w3;
               w5 = emit Close w4
        in (0, devs, w5))"

subsection \<open>The hardware-library variant (adt74x0b.c)\<close>

definition init_adt74x0b :: "bcm2835 \<Rightarrow> addr \<Rightarrow> world \<Rightarrow> 32 word \<times> world" where
  "init_adt74x0b lib addr w0 =
     (let w1 = bcm2835_i2c_setSlaveAddress addr w0;
          (r2, w2) = bcm2835_i2c_write (b_reset lib addr) [RESET] w1;
          stat = (ucast r2 :: 32 word) in
      if stat \<noteq> 0 then (- (0x10 + stat), w2)
      else let w3 = bcm2835_delay 1 w2;
               (r4, w4) = bcm2835_i2c_write (b_config lib addr) [CONFIG, 0x80] w3;
               stat = (ucast r4 :: 32 word) in
        if stat \<noteq> 0 then (- (0x20 + stat), w4)
        else let ((r5, buff0), w5) = bcm2835_i2c_read_register_rs (b_idreg lib addr) IDREG 1 w4;
                 stat = (ucast r5 :: 32 word) in
          if stat \<noteq> 0 then (- (0x30 + stat), w5)
          else if (ucast buff0 :: 32 word) AND 0xf8 \<noteq> 0xc8 then (- 0x3f, w5)
          else (0, w5))"

definition read_adt74x0b ::
  "bcm2835 \<Rightarrow> addr \<Rightarrow> rat option \<Rightarrow> world \<Rightarrow> 32 word \<times> rat option \<times> world" where
  "read_adt74x0b lib addr temp w0 =
     (let w1 = bcm2835_i2c_setSlaveAddress addr w0;
          ((r2, buff0, buff1), w2) = bcm2835_i2c_read_register_rs (b_t_msb lib addr) T_MSB 2 w1;
          stat = (ucast r2 :: 32 word) in
      if stat \<noteq> 0 then (- (0x40 + stat), temp, w2)
      else (0, Some (celsius (t128_of_buff buff0 buff1)), w2))"

definition fill_devsb :: "8 word list \<Rightarrow> 8 word list" where
  "fill_devsb devs = fold (\<lambda>i d. d[i := - 1]) [0..<I2C_ADDRS] devs"

definition init_stepb ::
  "bool \<Rightarrow> bcm2835 \<Rightarrow> nat \<Rightarrow> 8 word list \<times> world \<Rightarrow> 8 word list \<times> world" where
  "init_stepb debug lib i s =
     (case s of (devs, w) \<Rightarrow>
        let (stat, w') = init_adt74x0b lib i w in
          (devs[i := ucast stat], (if debug then printf (ScanDebug i (- stat)) w' else w')))"

definition read_stepb :: "bcm2835 \<Rightarrow> 8 word list \<Rightarrow> nat \<Rightarrow> world \<Rightarrow> world" where
  "read_stepb lib devs i w =
     (if devs ! i \<noteq> 0 then w
      else let (stat, t, w') = read_adt74x0b lib i None w in
        if stat <s 0 then printf (ErrorLine i stat) w' else printf (TempLine i t) w')"

definition mainb :: "bool \<Rightarrow> bcm2835 \<Rightarrow> nat \<times> 8 word list \<times> world" where
  "mainb debug lib =
     (let w0 = emit (SetBaudrate 10000) (emit I2cBegin (emit LibInit start));
          devs0 = fill_devsb (replicate I2C_ADDRS 0);
          (devs, w1) = fold (init_stepb debug lib) [0x48..<0x4c] (devs0, w0);
          w2 = bcm2835_delay 1000 w1;
          w3 = fold (read_stepb lib devs) [0..<I2C_ADDRS] w2;
          w4 = emit LibClose (emit I2cEnd w3)
      in (0, devs, w4))"

subsection \<open>The text of an output line\<close>

fun dec :: "nat \<Rightarrow> string" where
  "dec n = (if n < 10 then [''0123456789'' ! n] else dec (n div 10) @ [''0123456789'' ! (n mod 10)])"

fun hex :: "nat \<Rightarrow> string" where
  "hex n = (if n < 16 then [''0123456789abcdef'' ! n] else hex (n div 16) @ [''0123456789abcdef'' ! (n mod 16)])"

text \<open>\<^verbatim>\<open>%d\<close>, \<^verbatim>\<open>%02x\<close> and \<^verbatim>\<open>%.5f\<close> (which rounds to the nearest, ties to even).\<close>

definition fmt_d :: "int \<Rightarrow> string" where
  "fmt_d i = (if i < 0 then ''-'' @ dec (nat (- i)) else dec (nat i))"

definition fmt_02x :: "nat \<Rightarrow> string" where
  "fmt_02x n = replicate (2 - length (hex n)) CHR ''0'' @ hex n"

definition round_half_even :: "rat \<Rightarrow> int" where
  "round_half_even x =
     (let f = \<lfloor>x\<rfloor>; d = x - of_int f in
      if d < 1 / 2 then f else if 1 / 2 < d then f + 1 else if even f then f else f + 1)"

definition fmt_5f :: "rat \<Rightarrow> string" where
  "fmt_5f t =
     (let n = nat (round_half_even (\<bar>t\<bar> * 100000));
          frac = dec (n mod 100000) in
      (if t < 0 then ''-'' else '''') @ dec (n div 100000) @ ''.''
        @ replicate (5 - length frac) CHR ''0'' @ frac)"

definition nl :: string where
  "nl = [CHR 0x0A]"

fun render :: "line \<Rightarrow> string" where
  "render (Scanning f) = ''# Scanning '' @ f @ '' for ADT74x0...'' @ nl"
| "render (UnableToOpen f) = ''Unable to open '' @ f @ nl"
| "render (HasID i stat) = ''# 0x'' @ fmt_02x i @ '' has ID 0x'' @ fmt_02x (unat stat) @ nl"
| "render (ScanDebug i v) = ''# scan(addr = '' @ fmt_02x i @ '') = '' @ fmt_02x (unat v) @ nl"
| "render (ErrorLine i stat) = ''# 0x'' @ fmt_02x i @ '' error '' @ fmt_d (sint stat) @ nl"
| "render (TempLine i (Some t)) = ''0x'' @ fmt_02x i @ '' '' @ fmt_5f t @ ''C'' @ nl"
| "render (TempLine i None) = ''0x'' @ fmt_02x i @ '' <indeterminate>C'' @ nl"

text \<open>The result lines of one address: its error line or its temperature line.\<close>

fun result_for :: "addr \<Rightarrow> line \<Rightarrow> bool" where
  "result_for a (ErrorLine i stat) = (i = a)"
| "result_for a (TempLine i t) = (i = a)"
| "result_for a _ = False"

fun is_result :: "line \<Rightarrow> bool" where
  "is_result (ErrorLine i stat) = True"
| "is_result (TempLine i t) = True"
| "is_result _ = False"

fun is_error :: "line \<Rightarrow> bool" where
  "is_error (ErrorLine i stat) = True"
| "is_error _ = False"

subsection \<open>What one address contributes to a run\<close>

text \<open>
  The result of a call and what it appends to the trace and to the output do not depend
  on the world it starts from (shown below), so they are named by running the call from
  \<open>start\<close>.
\<close>

definition init_code :: "bool \<Rightarrow> i2c_dev \<Rightarrow> addr \<Rightarrow> 32 word" where
  "init_code g dev i = fst (init_adt74x0 g dev i start)"

definition init_ops :: "bool \<Rightarrow> i2c_dev \<Rightarrow> addr \<Rightarrow> bus_op list" where
  "init_ops g dev i = trace (snd (init_adt74x0 g dev i start))"

definition init_lines :: "bool \<Rightarrow> i2c_dev \<Rightarrow> addr \<Rightarrow> line list" where
  "init_lines g dev i = out (snd (init_adt74x0 g dev i start))"

definition read_code :: "i2c_dev \<Rightarrow> addr \<Rightarrow> 32 word" where
  "read_code dev i = fst (read_adt74x0 dev i None start)"

definition read_temp :: "i2c_dev \<Rightarrow> addr \<Rightarrow> rat option" where
  "read_temp dev i = fst (snd (read_adt74x0 dev i None start))"

definition read_ops :: "i2c_dev \<Rightarrow> addr \<Rightarrow> bus_op list" where
  "read_ops dev i = trace (snd (snd (read_adt74x0 dev i None start)))"

definition result_line :: "i2c_dev \<Rightarrow> addr \<Rightarrow> line" where
  "result_line dev i =
     (if read_code dev i <s 0 then ErrorLine i (read_code dev i) else TempLine i (read_temp dev i))"

definition devs0 :: "8 word list" where
  "devs0 = fill_devs (replicate I2C_ADDRS 0)"

definition filename :: "string list \<Rightarrow> string" where
  "filename argv = (if length argv > 1 then argv ! 1 else ''/dev/i2c-0'')"

definition eligible :: "bool \<Rightarrow> i2c_dev \<Rightarrow> addr \<Rightarrow> bool" where
  "eligible g dev i \<longleftrightarrow> window i \<and> \<not> init_code g dev i <s 0"

definition recorded :: "bool \<Rightarrow> i2c_dev \<Rightarrow> addr \<Rightarrow> 8 word" where
  "recorded g dev i =
     (if window i then (if init_code g dev i <s 0 then ucast (init_code g dev i) else 1) else 0)"

definition init_codeb :: "bcm2835 \<Rightarrow> addr \<Rightarrow> 32 word" where
  "init_codeb lib i = fst (init_adt74x0b lib i start)"

definition init_opsb :: "bcm2835 \<Rightarrow> addr \<Rightarrow> bus_op list" where
  "init_opsb lib i = trace (snd (init_adt74x0b lib i start))"

definition read_codeb :: "bcm2835 \<Rightarrow> addr \<Rightarrow> 32 word" where
  "read_codeb lib i = fst (read_adt74x0b lib i None start)"

definition read_tempb :: "bcm2835 \<Rightarrow> addr \<Rightarrow> rat option" where
  "read_tempb lib i = fst (snd (read_adt74x0b lib i None start))"

definition read_opsb :: "bcm2835 \<Rightarrow> addr \<Rightarrow> bus_op list" where
  "read_opsb lib i = trace (snd (snd (read_adt74x0b lib i None start)))"

definition result_lineb :: "bcm2835 \<Rightarrow> addr \<Rightarrow> line" where
  "result_lineb lib i =
     (if read_codeb lib i <s 0 then ErrorLine i (read_codeb lib i) else TempLine i (read_tempb lib i))"

definition debug_lines :: "bool \<Rightarrow> bcm2835 \<Rightarrow> addr \<Rightarrow> line list" where
  "debug_lines debug lib i = (if debug then [ScanDebug i (- init_codeb lib i)] else [])"

definition recordedb :: "bcm2835 \<Rightarrow> addr \<Rightarrow> 8 word" where
  "recordedb lib i = (if window i then ucast (init_codeb lib i) else - 1)"

definition eligibleb :: "bcm2835 \<Rightarrow> addr \<Rightarrow> bool" where
  "eligibleb lib i \<longleftrightarrow> window i \<and> (ucast (init_codeb lib i) :: 8 word) = 0"

definition devs0b :: "8 word list" where
  "devs0b = fill_devsb (replicate I2C_ADDRS 0)"

subsection \<open>Lines about an address, transports that agree, the order of steps\<close>

text \<open>The address a printed line is about, if any.\<close>

fun line_addr :: "line \<Rightarrow> addr option" where
  "line_addr (HasID i stat) = Some i"
| "line_addr (ScanDebug i v) = Some i"
| "line_addr (ErrorLine i stat) = Some i"
| "line_addr (TempLine i t) = Some i"
| "line_addr _ = None"

text \<open>
  Two transports give the same answers for address \<open>c\<close>; they give the same answers for
  every 7-bit address but \<open>a0\<close>.
\<close>

definition same_at :: "i2c_dev \<Rightarrow> i2c_dev \<Rightarrow> addr \<Rightarrow> bool" where
  "same_at d1 d2 c \<longleftrightarrow>
     k_ioctl_init d1 c = k_ioctl_init d2 c \<and> k_reset d1 c = k_reset d2 c
     \<and> k_idreg d1 c = k_idreg d2 c \<and> k_config d1 c = k_config d2 c
     \<and> k_ioctl_read d1 c = k_ioctl_read d2 c \<and> k_t_msb d1 c = k_t_msb d2 c"

definition same_atb :: "bcm2835 \<Rightarrow> bcm2835 \<Rightarrow> addr \<Rightarrow> bool" where
  "same_atb l1 l2 c \<longleftrightarrow>
     b_reset l1 c = b_reset l2 c \<and> b_config l1 c = b_config l2 c
     \<and> b_idreg l1 c = b_idreg l2 c \<and> b_t_msb l1 c = b_t_msb l2 c"

definition agree_except :: "addr \<Rightarrow> i2c_dev \<Rightarrow> i2c_dev \<Rightarrow> bool" where
  "agree_except a0 d1 d2 \<longleftrightarrow> (\<forall>c \<in> set [0..<I2C_ADDRS]. c \<noteq> a0 \<longrightarrow> same_at d1 d2 c)"

definition agree_exceptb :: "addr \<Rightarrow> bcm2835 \<Rightarrow> bcm2835 \<Rightarrow> bool" where
  "agree_exceptb a0 l1 l2 \<longleftrightarrow> (\<forall>c \<in> set [0..<I2C_ADDRS]. c \<noteq> a0 \<longrightarrow> same_atb l1 l2 c)"

text \<open>
  The operations of a complete initialisation, in the order each variant issues them;
  \<^verbatim>\<open>bcm2835_delay(1)\<close> is a wait of 1000 microseconds.
\<close>

definition init_sequence :: "bool \<Rightarrow> addr \<Rightarrow> bus_op list" where
  "init_sequence good_i2c_bus a =
     [Select a, Write (Some a) [RESET], Wait 250]
     @ (if good_i2c_bus then [Read (Some a) IDREG 1] else [])
     @ [Write (Some a) [CONFIG, 0x80]]"

definition init_sequenceb :: "addr \<Rightarrow> bus_op list" where
  "init_sequenceb a =
     [Select a, Write (Some a) [RESET], Wait 1000, Write (Some a) [CONFIG, 0x80],
      Read (Some a) IDREG 1]"

text \<open>
  A plan lists the operations of an initialisation in order, each with whether its step
  fails on the given transport: a call fails when its answer says so (a negative
  result from the kernel, a non-zero reason code from the library), the identity step
  also when the byte read does not match, a wait never. \<open>upto_first_failure\<close> is the
  part of a plan that is carried out when a run stops at the first failing step.
\<close>

fun upto_first_failure :: "(bus_op \<times> bool) list \<Rightarrow> bus_op list" where
  "upto_first_failure [] = []"
| "upto_first_failure ((op, failed) # rest) = op # (if failed then [] else upto_first_failure rest)"

definition init_plan :: "bool \<Rightarrow> i2c_dev \<Rightarrow> addr \<Rightarrow> (bus_op \<times> bool) list" where
  "init_plan good_i2c_bus dev a =
     [(Select a, k_ioctl_init dev a <s 0),
      (Write (Some a) [RESET], k_reset dev a <s 0),
      (Wait 250, False)]
     @ (if good_i2c_bus
        then [(Read (Some a) IDREG 1, k_idreg dev a <s 0 \<or> k_idreg dev a AND 0xf8 \<noteq> 0xc8)]
        else [])
     @ [(Write (Some a) [CONFIG, 0x80], k_config dev a <s 0)]"

definition init_planb :: "bcm2835 \<Rightarrow> addr \<Rightarrow> (bus_op \<times> bool) list" where
  "init_planb lib a =
     [(Select a, False),
      (Write (Some a) [RESET], b_reset lib a \<noteq> 0),
      (Wait 1000, False),
      (Write (Some a) [CONFIG, 0x80], b_config lib a \<noteq> 0),
      (Read (Some a) IDREG 1, fst (b_idreg lib a) \<noteq> 0 \<or> snd (b_idreg lib a) AND 0xf8 \<noteq> 0xc8)]"

subsection \<open>Sample transports\<close>

text \<open>
  A transport on which every call succeeds, every device identifies as 0xcb and reads
  the bytes 0x0b, 0xc0 (23.5 degrees), and variations of it: a reset write that fails
  at 0x48, a temperature read that fails at 0x48, a device file that cannot be opened,
  a reset write answered with 0xF0, and devices with a given identity byte.
\<close>

definition dev_ok :: i2c_dev where
  "dev_ok = \<lparr>k_open = 3, k_ioctl_init = (\<lambda>a. 0), k_reset = (\<lambda>a. 0), k_idreg = (\<lambda>a. 0xcb),
     k_config = (\<lambda>a. 0), k_ioctl_read = (\<lambda>a. 0), k_t_msb = (\<lambda>a. 0xc00b)\<rparr>"

definition dev_reset_fails :: i2c_dev where
  "dev_reset_fails = dev_ok\<lparr>k_reset := (\<lambda>a. if a = 0x48 then - 1 else 0)\<rparr>"

definition dev_read_fails :: i2c_dev where
  "dev_read_fails = dev_ok\<lparr>k_t_msb := (\<lambda>a. if a = 0x48 then - 121 else 0xc00b)\<rparr>"

definition dev_no_open :: i2c_dev where
  "dev_no_open = dev_ok\<lparr>k_open := - 1\<rparr>"

definition dev_id :: "8 word \<Rightarrow> i2c_dev" where
  "dev_id b = dev_ok\<lparr>k_idreg := (\<lambda>a. ucast b)\<rparr>"

definition lib_ok :: bcm2835 where
  "lib_ok = \<lparr>b_reset = (\<lambda>a. 0), b_config = (\<lambda>a. 0), b_idreg = (\<lambda>a. (0, 0xcb)),
     b_t_msb = (\<lambda>a. (0, 0x0b, 0xc0))\<rparr>"

definition lib_reset_fails :: bcm2835 where
  "lib_reset_fails = lib_ok\<lparr>b_reset := (\<lambda>a. if a = 0x48 then 1 else 0)\<rparr>"

definition lib_read_fails :: bcm2835 where
  "lib_read_fails = lib_ok\<lparr>b_t_msb := (\<lambda>a. if a = 0x48 then (1, 0, 0) else (0, 0x0b, 0xc0))\<rparr>"

definition lib_f0 :: bcm2835 where
  "lib_f0 = lib_ok\<lparr>b_reset := (\<lambda>a. if a = 0x48 then 0xF0 else 0)\<rparr>"

definition lib_id :: "8 word \<Rightarrow> bcm2835" where
  "lib_id b = lib_ok\<lparr>b_idreg := (\<lambda>a. (0, b))\<rparr>"

section \<open>Auxiliary facts\<close>

subsection \<open>Words\<close>

lemma mask_ff00: "(0xff00 :: 32 word) = push_bit 8 (mask 8)"
  by (simp add: mask_eq_exp_minus_1)

lemma mask_00ff: "(0x00ff :: 32 word) = mask 8"
  by (simp add: mask_eq_exp_minus_1)

lemma t128_of_buff_eq: "t128_of_buff hi lo = push_bit 8 (ucast hi) OR ucast lo"
  unfolding t128_of_buff_def Let_def
  by (rule bit_word_eqI) (auto simp add: bit_simps)

lemma t128_of_word_eq: "t128_of_word (smbus_word hi lo) = push_bit 8 (ucast hi) OR ucast lo"
  unfolding t128_of_word_def smbus_word_def Let_def mask_ff00 mask_00ff
  by (rule bit_word_eqI) (auto simp add: bit_simps dest: bit_imp_le_length)

lemma code_as_int:
  "- (word_of_int c + ucast r :: 32 word) = word_of_int (- (c + uint r))" for r :: "8 word"
proof -
  have "(ucast r :: 32 word) = word_of_int (uint r)"
    by (rule ucast_eq)
  then show ?thesis
    by (simp only: wi_hom_add wi_hom_neg)
qed

lemma uint8_bound: "0 \<le> uint r \<and> uint r < 256" for r :: "8 word"
  using uint_bounded [of r] by simp

lemma sint_neg_code:
  assumes "0 \<le> c" "c < 1000"
  shows "sint (- (word_of_int c + ucast (r :: 8 word) :: 32 word)) = - (c + uint r)"
proof -
  have p: "(2 :: int) ^ 31 = 2147483648"
    by simp
  have "0 \<le> uint r" "uint r < 256"
    using uint8_bound [of r] by blast+
  then have "- 2147483648 \<le> - (c + uint r)" "- (c + uint r) < 2147483648"
    using assms by linarith+
  then have "signed_take_bit 31 (- (c + uint r)) = - (c + uint r)"
    unfolding p [symmetric] by (rule signed_take_bit_int_eq_self)
  moreover have "sint (word_of_int k :: 32 word) = signed_take_bit 31 k" for k
    by (simp add: sint_sbintrunc')
  ultimately show ?thesis
    by (simp only: code_as_int)
qed

lemma neg_code_sless:
  assumes "0 < c" "c < 1000"
  shows "- (word_of_int c + ucast (r :: 8 word) :: 32 word) <s 0"
proof -
  have "0 \<le> uint r"
    using uint8_bound [of r] by blast
  then have "- (c + uint r) < 0"
    using assms by linarith
  moreover have "sint (- (word_of_int c + ucast r :: 32 word)) = - (c + uint r)"
    using assms by (intro sint_neg_code) simp_all
  ultimately show ?thesis
    by (simp only: word_sless_alt sint_0)
qed

lemma narrow_neg:
  "(ucast (- (word_of_int c + ucast r :: 32 word)) :: 8 word) = - (word_of_int c + r)" for r :: "8 word"
proof -
  have "(ucast (word_of_int (- (c + uint r)) :: 32 word) :: 8 word) =
          word_of_int (- (c + uint r))"
    by (rule ucast_down_wi) (simp add: is_down)
  also have "\<dots> = - (word_of_int c + word_of_int (uint r))"
    by (simp only: wi_hom_add wi_hom_neg)
  also have "\<dots> = - (word_of_int c + r)"
    by simp
  finally show ?thesis
    by (simp only: code_as_int)
qed

lemma neg_codes:
  "- (0x10 + ucast r :: 32 word) <s 0" "- (0x20 + ucast r :: 32 word) <s 0"
  "- (0x30 + ucast r :: 32 word) <s 0" "- (0x40 + ucast r :: 32 word) <s 0" for r :: "8 word"
  using neg_code_sless [of 16 r] neg_code_sless [of 32 r] neg_code_sless [of 48 r]
    neg_code_sless [of 64 r] by simp_all

lemma narrow_negs:
  "(ucast (- (0x10 + ucast r :: 32 word)) :: 8 word) = - (0x10 + r)"
  "(ucast (- (0x20 + ucast r :: 32 word)) :: 8 word) = - (0x20 + r)"
  "(ucast (- (0x30 + ucast r :: 32 word)) :: 8 word) = - (0x30 + r)" for r :: "8 word"
  using narrow_neg [of 16 r] narrow_neg [of 32 r] narrow_neg [of 48 r] by simp_all

lemma narrow_zero:
  "- (0x10 + r) = 0 \<longleftrightarrow> r = 0xF0"
  "- (0x20 + r) = 0 \<longleftrightarrow> r = 0xE0"
  "- (0x30 + r) = 0 \<longleftrightarrow> r = 0xD0" for r :: "8 word"
  by auto

lemma id_mask: "(ucast b :: 32 word) AND 0xf8 = 0xc8 \<longleftrightarrow> b AND 0xf8 = 0xc8" for b :: "8 word"
proof -
  have "(ucast b :: 32 word) AND 0xf8 = ucast (b AND 0xf8)"
    by (rule bit_word_eqI) (auto simp add: bit_simps dest: bit_imp_le_length)
  moreover have "(0xc8 :: 32 word) = ucast (0xc8 :: 8 word)"
    by simp
  moreover have "(ucast (ucast x :: 32 word) :: 8 word) = x" for x :: "8 word"
    by (rule ucast_up_ucast_id) (simp add: is_up)
  then have "(ucast x :: 32 word) = ucast y \<longleftrightarrow> x = y" for x y :: "8 word"
    by metis
  ultimately show ?thesis
    by (simp only:)
qed

subsection \<open>Calls and passes\<close>

lemmas prim_defs = ioctl_I2C_SLAVE_def i2c_smbus_write_byte_def i2c_smbus_read_byte_data_def
  i2c_smbus_write_byte_data_def i2c_smbus_read_word_data_def usleep_def
  bcm2835_i2c_setSlaveAddress_def bcm2835_i2c_write_def bcm2835_i2c_read_register_rs_def
  bcm2835_delay_def emit_def printf_def

lemma init_adt74x0_fst: "fst (init_adt74x0 g dev i w) = init_code g dev i"
  by (simp add: init_code_def init_adt74x0_def good_i2c_bus_block_def prim_defs Let_def split: prod.splits)

lemma init_adt74x0_trace: "trace (snd (init_adt74x0 g dev i w)) = trace w @ init_ops g dev i"
  by (simp add: init_ops_def init_adt74x0_def good_i2c_bus_block_def prim_defs start_def Let_def split: prod.splits)

lemma init_adt74x0_out: "out (snd (init_adt74x0 g dev i w)) = out w @ init_lines g dev i"
  by (simp add: init_lines_def init_adt74x0_def good_i2c_bus_block_def prim_defs start_def Let_def split: prod.splits)

lemma read_adt74x0_fst: "fst (read_adt74x0 dev i t w) = read_code dev i"
  by (simp add: read_code_def read_adt74x0_def prim_defs Let_def split: prod.splits)

lemma read_adt74x0_temp: "fst (snd (read_adt74x0 dev i None w)) = read_temp dev i"
  by (simp add: read_temp_def read_adt74x0_def prim_defs Let_def split: prod.splits)

lemma read_adt74x0_trace: "trace (snd (snd (read_adt74x0 dev i t w))) = trace w @ read_ops dev i"
  by (simp add: read_ops_def read_adt74x0_def prim_defs start_def Let_def split: prod.splits)

lemma read_adt74x0_out: "out (snd (snd (read_adt74x0 dev i t w))) = out w"
  by (simp add: read_adt74x0_def prim_defs Let_def split: prod.splits)

lemma init_code_cases:
  "init_code g dev i \<in> {0, - 1, - 2, - 3, - 4, - 5}"
  by (simp add: init_code_def init_adt74x0_def good_i2c_bus_block_def prim_defs Let_def split: prod.splits)

lemma init_code_neg_iff: "init_code g dev i <s 0 \<longleftrightarrow> init_code g dev i \<noteq> 0"
  using init_code_cases [of g dev i] by (auto simp: word_sless_alt)

lemma narrow_codes:
  "(ucast (- 1 :: 32 word) :: 8 word) = - 1"
  "(ucast (- 2 :: 32 word) :: 8 word) = - 2"
  "(ucast (- 3 :: 32 word) :: 8 word) = - 3"
  "(ucast (- 4 :: 32 word) :: 8 word) = - 4"
  "(ucast (- 5 :: 32 word) :: 8 word) = - 5"
  by code_simp+

lemma init_code_ucast_neg: "init_code g dev i <s 0 \<Longrightarrow> (ucast (init_code g dev i) :: 8 word) \<le>s 0"
  using init_code_cases [of g dev i] by (auto simp: word_sle_eq narrow_codes)

lemma init_step_fst:
  "fst (init_step g dev i (devs, w)) =
     (if \<not> devs ! i \<le>s 0 \<and> init_code g dev i <s 0 then devs[i := ucast (init_code g dev i)] else devs)"
  using init_adt74x0_fst [of g dev i w]
  by (auto simp: init_step_def split: prod.splits)

lemma init_step_trace:
  "trace (snd (init_step g dev i (devs, w))) =
     trace w @ (if devs ! i \<le>s 0 then [] else init_ops g dev i)"
  using init_adt74x0_trace [of g dev i w]
  by (auto simp: init_step_def split: prod.splits)

lemma init_step_out:
  "out (snd (init_step g dev i (devs, w))) =
     out w @ (if devs ! i \<le>s 0 then [] else init_lines g dev i)"
  using init_adt74x0_out [of g dev i w]
  by (auto simp: init_step_def split: prod.splits)

lemma init_pass_devs:
  "distinct xs \<Longrightarrow> \<forall>i\<in>set xs. i < length devs \<Longrightarrow>
   fst (fold (init_step g dev) xs (devs, w)) ! j =
     (if j \<in> set xs \<and> \<not> devs ! j \<le>s 0 \<and> init_code g dev j <s 0
      then ucast (init_code g dev j) else devs ! j)"
proof (induction xs arbitrary: devs w)
  case Nil
  then show ?case by simp
next
  case (Cons x xs)
  obtain devs1 w1 where s: "init_step g dev x (devs, w) = (devs1, w1)"
    by (cases "init_step g dev x (devs, w)")
  have d1: "devs1 = (if \<not> devs ! x \<le>s 0 \<and> init_code g dev x <s 0
                     then devs[x := ucast (init_code g dev x)] else devs)"
    using init_step_fst [of g dev x devs w] s by simp
  have len: "length devs1 = length devs" by (simp add: d1)
  have "fst (fold (init_step g dev) xs (devs1, w1)) ! j =
     (if j \<in> set xs \<and> \<not> devs1 ! j \<le>s 0 \<and> init_code g dev j <s 0
      then ucast (init_code g dev j) else devs1 ! j)"
    using Cons.prems by (intro Cons.IH) (auto simp: len)
  moreover have "x \<notin> set xs" "x < length devs" using Cons.prems by auto
  ultimately show ?case
    using s by (auto simp: d1 nth_list_update)
qed

lemma init_pass_length:
  "length (fst (fold (init_step g dev) xs (devs, w))) = length devs"
proof (induction xs arbitrary: devs w)
  case Nil
  then show ?case by simp
next
  case (Cons x xs)
  obtain devs1 w1 where s: "init_step g dev x (devs, w) = (devs1, w1)"
    by (cases "init_step g dev x (devs, w)")
  have "length devs1 = length devs"
    using init_step_fst [of g dev x devs w] s by (simp split: if_splits)
  then show ?case using Cons.IH [of devs1 w1] s by simp
qed

lemma init_pass_trace:
  "distinct xs \<Longrightarrow> \<forall>i\<in>set xs. i < length devs \<Longrightarrow>
   trace (snd (fold (init_step g dev) xs (devs, w))) =
     trace w @ concat (map (\<lambda>i. if devs ! i \<le>s 0 then [] else init_ops g dev i) xs)"
proof (induction xs arbitrary: devs w)
  case Nil
  then show ?case by simp
next
  case (Cons x xs)
  obtain devs1 w1 where s: "init_step g dev x (devs, w) = (devs1, w1)"
    by (cases "init_step g dev x (devs, w)")
  have d1: "devs1 = (if \<not> devs ! x \<le>s 0 \<and> init_code g dev x <s 0
                     then devs[x := ucast (init_code g dev x)] else devs)"
    using init_step_fst [of g dev x devs w] s by simp
  have t1: "trace w1 = trace w @ (if devs ! x \<le>s 0 then [] else init_ops g dev x)"
    using init_step_trace [of g dev x devs w] s by simp
  have len: "length devs1 = length devs" by (simp add: d1)
  have "\<forall>i\<in>set xs. i \<noteq> x" using Cons.prems by auto
  then have same: "\<forall>i\<in>set xs. devs1 ! i = devs ! i"
    by (auto simp: d1)
  have "trace (snd (fold (init_step g dev) xs (devs1, w1))) =
     trace w1 @ concat (map (\<lambda>i. if devs1 ! i \<le>s 0 then [] else init_ops g dev i) xs)"
    using Cons.prems by (intro Cons.IH) (auto simp: len)
  also have "map (\<lambda>i. if devs1 ! i \<le>s 0 then [] else init_ops g dev i) xs =
             map (\<lambda>i. if devs ! i \<le>s 0 then [] else init_ops g dev i) xs"
    using same by (intro map_cong) auto
  finally show ?case using s by (simp add: t1)
qed

lemma init_pass_out:
  "distinct xs \<Longrightarrow> \<forall>i\<in>set xs. i < length devs \<Longrightarrow>
   out (snd (fold (init_step g dev) xs (devs, w))) =
     out w @ concat (map (\<lambda>i. if devs ! i \<le>s 0 then [] else init_lines g dev i) xs)"
proof (induction xs arbitrary: devs w)
  case Nil
  then show ?case by simp
next
  case (Cons x xs)
  obtain devs1 w1 where s: "init_step g dev x (devs, w) = (devs1, w1)"
    by (cases "init_step g dev x (devs, w)")
  have d1: "devs1 = (if \<not> devs ! x \<le>s 0 \<and> init_code g dev x <s 0
                     then devs[x := ucast (init_code g dev x)] else devs)"
    using init_step_fst [of g dev x devs w] s by simp
  have t1: "out w1 = out w @ (if devs ! x \<le>s 0 then [] else init_lines g dev x)"
    using init_step_out [of g dev x devs w] s by simp
  have len: "length devs1 = length devs" by (simp add: d1)
  have "\<forall>i\<in>set xs. i \<noteq> x" using Cons.prems by auto
  then have same: "\<forall>i\<in>set xs. devs1 ! i = devs ! i"
    by (auto simp: d1)
  have "out (snd (fold (init_step g dev) xs (devs1, w1))) =
     out w1 @ concat (map (\<lambda>i. if devs1 ! i \<le>s 0 then [] else init_lines g dev i) xs)"
    using Cons.prems by (intro Cons.IH) (auto simp: len)
  also have "map (\<lambda>i. if devs1 ! i \<le>s 0 then [] else init_lines g dev i) xs =
             map (\<lambda>i. if devs ! i \<le>s 0 then [] else init_lines g dev i) xs"
    using same by (intro map_cong) auto
  finally show ?case using s by (simp add: t1)
qed

lemma read_step_trace:
  "trace (read_step dev devs i w) = trace w @ (if devs ! i \<le>s 0 then [] else read_ops dev i)"
  using read_adt74x0_trace [of dev i None w]
  by (auto simp: read_step_def printf_def split: prod.splits)

lemma read_step_out:
  "out (read_step dev devs i w) = out w @ (if devs ! i \<le>s 0 then [] else [result_line dev i])"
  using read_adt74x0_out [of dev i None w] read_adt74x0_fst [of dev i None w]
    read_adt74x0_temp [of dev i w]
  by (auto simp: read_step_def printf_def result_line_def split: prod.splits)

lemma read_pass_trace:
  "trace (fold (read_step dev devs) xs w) =
     trace w @ concat (map (\<lambda>i. if devs ! i \<le>s 0 then [] else read_ops dev i) xs)"
  by (induction xs arbitrary: w) (simp_all add: read_step_trace)

lemma read_pass_out:
  "out (fold (read_step dev devs) xs w) =
     out w @ concat (map (\<lambda>i. if devs ! i \<le>s 0 then [] else [result_line dev i]) xs)"
  by (induction xs arbitrary: w) (simp_all add: read_step_out)

lemma fill_fold_nth:
  "\<forall>i\<in>set xs. i < length d \<Longrightarrow>
   fold (\<lambda>i d. d[i := f i]) xs d ! j = (if j \<in> set xs then f j else d ! j)"
  by (induction xs arbitrary: d) (auto simp: nth_list_update)

lemma fill_fold_length: "length (fold (\<lambda>i d. d[i := f i]) xs d) = length d"
  by (induction xs arbitrary: d) auto

lemma fill_devs_nth:
  "length d = I2C_ADDRS \<Longrightarrow> fill_devs d ! j = (if j < I2C_ADDRS then (if window j then 1 else 0) else d ! j)"
  unfolding fill_devs_def window_def by (subst fill_fold_nth) auto

lemma fill_devs_length: "length (fill_devs d) = length d"
  unfolding fill_devs_def by (rule fill_fold_length)

lemma upt_I2C: "distinct [0..<I2C_ADDRS]" "set [0..<I2C_ADDRS] = {i. i < I2C_ADDRS}"
  by auto

lemma devs0_nth: "j < I2C_ADDRS \<Longrightarrow> devs0 ! j = (if window j then 1 else 0)"
  by (simp add: devs0_def fill_devs_nth)

lemma devs0_length: "length devs0 = I2C_ADDRS"
  by (simp add: devs0_def fill_devs_length)

lemma devs0_sle: "j < I2C_ADDRS \<Longrightarrow> devs0 ! j \<le>s 0 \<longleftrightarrow> \<not> window j"
  by (simp add: devs0_nth word_sle_eq)

lemma window_less: "window j \<Longrightarrow> j < I2C_ADDRS"
  by (simp add: window_def I2C_ADDRS_def)

lemma main_fail:
  "k_open dev <s 0 \<Longrightarrow> main g dev argv =
      (1, [], \<lparr>slave = None, trace = [Open (filename argv)],
                out = [Scanning (filename argv), UnableToOpen (filename argv)]\<rparr>)"
  by (simp add: main_def Let_def start_def emit_def printf_def filename_def)

lemma main_ok:
  "\<not> k_open dev <s 0 \<Longrightarrow> main g dev argv =
     (let s = fold (init_step g dev) [0..<I2C_ADDRS]
                (devs0, emit (Open (filename argv)) (printf (Scanning (filename argv)) start))
      in (0, fst s, emit Close (fold (read_step dev (fst s)) [0..<I2C_ADDRS] (usleep 1000000 (snd s)))))"
  by (simp add: main_def Let_def filename_def devs0_def split_beta)

lemma init_pass_main_devs:
  assumes "j < I2C_ADDRS"
  shows "fst (fold (init_step g dev) [0..<I2C_ADDRS] (devs0, w)) ! j = recorded g dev j"
proof -
  have "fst (fold (init_step g dev) [0..<I2C_ADDRS] (devs0, w)) ! j =
     (if j \<in> set [0..<I2C_ADDRS] \<and> \<not> devs0 ! j \<le>s 0 \<and> init_code g dev j <s 0
      then ucast (init_code g dev j) else devs0 ! j)"
    by (rule init_pass_devs) (simp_all add: devs0_length)
  then show ?thesis
    using assms by (simp add: devs0_nth recorded_def word_sle_eq)
qed

lemma recorded_sle: "recorded g dev i \<le>s 0 \<longleftrightarrow> \<not> eligible g dev i"
  using init_code_ucast_neg [of g dev i]
  by (auto simp: recorded_def eligible_def word_sle_eq)

lemma init_pass_main_trace:
  "trace (snd (fold (init_step g dev) [0..<I2C_ADDRS] (devs0, w))) =
     trace w @ concat (map (\<lambda>i. if window i then init_ops g dev i else []) [0..<I2C_ADDRS])"
proof -
  have "map (\<lambda>i. if devs0 ! i \<le>s 0 then [] else init_ops g dev i) [0..<I2C_ADDRS] =
        map (\<lambda>i. if window i then init_ops g dev i else []) [0..<I2C_ADDRS]"
    by (rule map_cong) (simp_all add: devs0_sle)
  moreover have "trace (snd (fold (init_step g dev) [0..<I2C_ADDRS] (devs0, w))) =
     trace w @ concat (map (\<lambda>i. if devs0 ! i \<le>s 0 then [] else init_ops g dev i) [0..<I2C_ADDRS])"
    by (rule init_pass_trace) (simp_all add: devs0_length)
  ultimately show ?thesis by (simp only:)
qed

lemma init_pass_main_out:
  "out (snd (fold (init_step g dev) [0..<I2C_ADDRS] (devs0, w))) =
     out w @ concat (map (\<lambda>i. if window i then init_lines g dev i else []) [0..<I2C_ADDRS])"
proof -
  have "map (\<lambda>i. if devs0 ! i \<le>s 0 then [] else init_lines g dev i) [0..<I2C_ADDRS] =
        map (\<lambda>i. if window i then init_lines g dev i else []) [0..<I2C_ADDRS]"
    by (rule map_cong) (simp_all add: devs0_sle)
  moreover have "out (snd (fold (init_step g dev) [0..<I2C_ADDRS] (devs0, w))) =
     out w @ concat (map (\<lambda>i. if devs0 ! i \<le>s 0 then [] else init_lines g dev i) [0..<I2C_ADDRS])"
    by (rule init_pass_out) (simp_all add: devs0_length)
  ultimately show ?thesis by (simp only:)
qed

lemma read_pass_main_cong:
  "map (\<lambda>i. if fst (fold (init_step g dev) [0..<I2C_ADDRS] (devs0, w)) ! i \<le>s 0 then [] else f i)
       [0..<I2C_ADDRS] =
   map (\<lambda>i. if eligible g dev i then f i else []) [0..<I2C_ADDRS]"
  by (rule map_cong) (simp_all add: init_pass_main_devs recorded_sle)

lemma main_status: "fst (main g dev argv) = (if k_open dev <s 0 then 1 else 0)"
  by (simp add: main_fail main_ok Let_def)

lemma main_devs:
  "\<not> k_open dev <s 0 \<Longrightarrow> j < I2C_ADDRS \<Longrightarrow> fst (snd (main g dev argv)) ! j = recorded g dev j"
  by (simp add: main_ok Let_def init_pass_main_devs)

lemma main_devs_length:
  "\<not> k_open dev <s 0 \<Longrightarrow> length (fst (snd (main g dev argv))) = I2C_ADDRS"
  by (simp add: main_ok Let_def init_pass_length devs0_length)

lemma main_trace:
  "\<not> k_open dev <s 0 \<Longrightarrow> trace (snd (snd (main g dev argv))) =
     [Open (filename argv)]
     @ concat (map (\<lambda>i. if window i then init_ops g dev i else []) [0..<I2C_ADDRS])
     @ [Wait 1000000]
     @ concat (map (\<lambda>i. if eligible g dev i then read_ops dev i else []) [0..<I2C_ADDRS])
     @ [Close]"
  by (simp add: main_ok Let_def emit_def usleep_def read_pass_trace read_pass_main_cong
      init_pass_main_trace printf_def start_def)

lemma main_out:
  "\<not> k_open dev <s 0 \<Longrightarrow> out (snd (snd (main g dev argv))) =
     [Scanning (filename argv)]
     @ concat (map (\<lambda>i. if window i then init_lines g dev i else []) [0..<I2C_ADDRS])
     @ concat (map (\<lambda>i. if eligible g dev i then [result_line dev i] else []) [0..<I2C_ADDRS])"
  by (simp add: main_ok Let_def emit_def usleep_def read_pass_out read_pass_main_cong
      init_pass_main_out printf_def start_def)

lemma init_adt74x0b_fst: "fst (init_adt74x0b lib i w) = init_codeb lib i"
  by (simp add: init_codeb_def init_adt74x0b_def prim_defs Let_def split: prod.splits)

lemma init_adt74x0b_trace: "trace (snd (init_adt74x0b lib i w)) = trace w @ init_opsb lib i"
  by (simp add: init_opsb_def init_adt74x0b_def prim_defs start_def Let_def split: prod.splits)

lemma init_adt74x0b_out: "out (snd (init_adt74x0b lib i w)) = out w"
  by (simp add: init_adt74x0b_def prim_defs Let_def split: prod.splits)

lemma read_adt74x0b_fst: "fst (read_adt74x0b lib i t w) = read_codeb lib i"
  by (simp add: read_codeb_def read_adt74x0b_def prim_defs Let_def split: prod.splits)

lemma read_adt74x0b_temp: "fst (snd (read_adt74x0b lib i None w)) = read_tempb lib i"
  by (simp add: read_tempb_def read_adt74x0b_def prim_defs Let_def split: prod.splits)

lemma read_adt74x0b_trace: "trace (snd (snd (read_adt74x0b lib i t w))) = trace w @ read_opsb lib i"
  by (simp add: read_opsb_def read_adt74x0b_def prim_defs start_def Let_def split: prod.splits)

lemma read_adt74x0b_out: "out (snd (snd (read_adt74x0b lib i t w))) = out w"
  by (simp add: read_adt74x0b_def prim_defs Let_def split: prod.splits)

lemma init_stepb_fst:
  "fst (init_stepb debug lib i (devs, w)) = devs[i := ucast (init_codeb lib i)]"
  using init_adt74x0b_fst [of lib i w]
  by (auto simp: init_stepb_def split: prod.splits)

lemma init_stepb_trace:
  "trace (snd (init_stepb debug lib i (devs, w))) = trace w @ init_opsb lib i"
  using init_adt74x0b_trace [of lib i w]
  by (auto simp: init_stepb_def printf_def split: prod.splits)

lemma init_stepb_out:
  "out (snd (init_stepb debug lib i (devs, w))) = out w @ debug_lines debug lib i"
  using init_adt74x0b_out [of lib i w] init_adt74x0b_fst [of lib i w]
  by (auto simp: init_stepb_def printf_def debug_lines_def split: prod.splits)

lemma init_passb_devs:
  "fst (fold (init_stepb debug lib) xs (devs, w)) =
     fold (\<lambda>i d. d[i := ucast (init_codeb lib i)]) xs devs"
proof (induction xs arbitrary: devs w)
  case Nil
  then show ?case by simp
next
  case (Cons x xs)
  obtain devs1 w1 where s: "init_stepb debug lib x (devs, w) = (devs1, w1)"
    by (cases "init_stepb debug lib x (devs, w)")
  have "devs1 = devs[x := ucast (init_codeb lib x)]"
    using init_stepb_fst [of debug lib x devs w] s by simp
  then show ?case using Cons.IH [of devs1 w1] s by simp
qed

lemma init_passb_trace:
  "trace (snd (fold (init_stepb debug lib) xs (devs, w))) = trace w @ concat (map (init_opsb lib) xs)"
proof (induction xs arbitrary: devs w)
  case Nil
  then show ?case by simp
next
  case (Cons x xs)
  obtain devs1 w1 where s: "init_stepb debug lib x (devs, w) = (devs1, w1)"
    by (cases "init_stepb debug lib x (devs, w)")
  have "trace w1 = trace w @ init_opsb lib x"
    using init_stepb_trace [of debug lib x devs w] s by simp
  then show ?case using Cons.IH [of devs1 w1] s by simp
qed

lemma init_passb_out:
  "out (snd (fold (init_stepb debug lib) xs (devs, w))) =
     out w @ concat (map (debug_lines debug lib) xs)"
proof (induction xs arbitrary: devs w)
  case Nil
  then show ?case by simp
next
  case (Cons x xs)
  obtain devs1 w1 where s: "init_stepb debug lib x (devs, w) = (devs1, w1)"
    by (cases "init_stepb debug lib x (devs, w)")
  have "out w1 = out w @ debug_lines debug lib x"
    using init_stepb_out [of debug lib x devs w] s by simp
  then show ?case using Cons.IH [of devs1 w1] s by simp
qed

lemma read_stepb_trace:
  "trace (read_stepb lib devs i w) = trace w @ (if devs ! i \<noteq> 0 then [] else read_opsb lib i)"
  using read_adt74x0b_trace [of lib i None w]
  by (auto simp: read_stepb_def printf_def split: prod.splits)

lemma read_stepb_out:
  "out (read_stepb lib devs i w) = out w @ (if devs ! i \<noteq> 0 then [] else [result_lineb lib i])"
  using read_adt74x0b_out [of lib i None w] read_adt74x0b_fst [of lib i None w]
    read_adt74x0b_temp [of lib i w]
  by (auto simp: read_stepb_def printf_def result_lineb_def split: prod.splits)

lemma read_passb_trace:
  "trace (fold (read_stepb lib devs) xs w) =
     trace w @ concat (map (\<lambda>i. if devs ! i \<noteq> 0 then [] else read_opsb lib i) xs)"
  by (induction xs arbitrary: w) (simp_all add: read_stepb_trace)

lemma read_passb_out:
  "out (fold (read_stepb lib devs) xs w) =
     out w @ concat (map (\<lambda>i. if devs ! i \<noteq> 0 then [] else [result_lineb lib i]) xs)"
  by (induction xs arbitrary: w) (simp_all add: read_stepb_out)

lemma devs0b_nth: "j < I2C_ADDRS \<Longrightarrow> devs0b ! j = - 1"
  unfolding devs0b_def fill_devsb_def by (subst fill_fold_nth) auto

lemma devs0b_length: "length devs0b = I2C_ADDRS"
  by (simp add: devs0b_def fill_devsb_def fill_fold_length)

lemma window_set: "set [0x48..<0x4c] = {i. window i}"
  by (auto simp: window_def)

lemma init_passb_main_devs:
  assumes "j < I2C_ADDRS"
  shows "fst (fold (init_stepb debug lib) [0x48..<0x4c] (devs0b, w)) ! j = recordedb lib j"
proof -
  have "\<forall>i\<in>set [0x48..<0x4c]. i < length devs0b"
    by (simp add: devs0b_length I2C_ADDRS_def)
  then have "fold (\<lambda>i d. d[i := ucast (init_codeb lib i)]) [0x48..<0x4c] devs0b ! j =
     (if j \<in> set [0x48..<0x4c] then ucast (init_codeb lib j) else devs0b ! j)"
    by (rule fill_fold_nth)
  also have "\<dots> = recordedb lib j"
    unfolding window_set using assms by (simp add: recordedb_def devs0b_nth)
  finally show ?thesis
    by (simp only: init_passb_devs)
qed

lemma recordedb_zero: "recordedb lib i \<noteq> 0 \<longleftrightarrow> \<not> eligibleb lib i"
  by (simp add: recordedb_def eligibleb_def)

lemma read_passb_main_cong:
  "map (\<lambda>i. if fst (fold (init_stepb debug lib) [0x48..<0x4c] (devs0b, w)) ! i \<noteq> 0 then [] else f i)
       [0..<I2C_ADDRS] =
   map (\<lambda>i. if eligibleb lib i then f i else []) [0..<I2C_ADDRS]"
  by (rule map_cong) (simp_all add: init_passb_main_devs recordedb_zero del: upt_rec_numeral)

lemma mainb_eq:
  "mainb debug lib =
     (let s = fold (init_stepb debug lib) [0x48..<0x4c]
                (devs0b, emit (SetBaudrate 10000) (emit I2cBegin (emit LibInit start)))
      in (0, fst s, emit LibClose (emit I2cEnd
            (fold (read_stepb lib (fst s)) [0..<I2C_ADDRS] (bcm2835_delay 1000 (snd s))))))"
  by (simp add: mainb_def Let_def devs0b_def split_beta del: upt_rec_numeral)

lemma mainb_status: "fst (mainb debug lib) = 0"
  by (simp add: mainb_eq Let_def)

lemma mainb_devs: "j < I2C_ADDRS \<Longrightarrow> fst (snd (mainb debug lib)) ! j = recordedb lib j"
  by (simp add: mainb_eq Let_def init_passb_main_devs del: upt_rec_numeral)

lemma mainb_trace:
  "trace (snd (snd (mainb debug lib))) =
     [LibInit, I2cBegin, SetBaudrate 10000]
     @ concat (map (init_opsb lib) [0x48..<0x4c])
     @ [Wait 1000000]
     @ concat (map (\<lambda>i. if eligibleb lib i then read_opsb lib i else []) [0..<I2C_ADDRS])
     @ [I2cEnd, LibClose]"
  by (simp add: mainb_eq Let_def emit_def bcm2835_delay_def read_passb_trace read_passb_main_cong
      init_passb_trace start_def del: upt_rec_numeral)

lemma mainb_out:
  "out (snd (snd (mainb debug lib))) =
     concat (map (debug_lines debug lib) [0x48..<0x4c])
     @ concat (map (\<lambda>i. if eligibleb lib i then [result_lineb lib i] else []) [0..<I2C_ADDRS])"
  by (simp add: mainb_eq Let_def emit_def bcm2835_delay_def read_passb_out read_passb_main_cong
      init_passb_out start_def del: upt_rec_numeral)

lemma filter_concat_map_none:
  "(\<And>i. i \<in> set xs \<Longrightarrow> filter P (f i) = []) \<Longrightarrow> filter P (concat (map f xs)) = []"
  by (induction xs) auto

lemma filter_concat_map_one:
  "distinct xs \<Longrightarrow> a \<in> set xs \<Longrightarrow> (\<And>i. i \<in> set xs \<Longrightarrow> i \<noteq> a \<Longrightarrow> filter P (f i) = []) \<Longrightarrow>
   filter P (concat (map f xs)) = filter P (f a)"
proof (induction xs)
  case Nil
  then show ?case by simp
next
  case (Cons x xs)
  show ?case
  proof (cases "x = a")
    case True
    then have "\<And>i. i \<in> set xs \<Longrightarrow> filter P (f i) = []"
      using Cons.prems by auto
    then have "filter P (concat (map f xs)) = []"
      by (rule filter_concat_map_none)
    then show ?thesis using True by simp
  next
    case False
    then have "filter P (f x) = []" "a \<in> set xs" "distinct xs"
      using Cons.prems by auto
    moreover have "filter P (concat (map f xs)) = filter P (f a)"
      using Cons.prems False by (intro Cons.IH) auto
    ultimately show ?thesis by simp
  qed
qed

lemma ucast8_eq_0 [simp]: "(ucast r :: 32 word) = 0 \<longleftrightarrow> r = 0" for r :: "8 word"
proof -
  have "(ucast (ucast r :: 32 word) :: 8 word) = r"
    by (rule ucast_up_ucast_id) (simp add: is_up)
  then show ?thesis
    by (metis ucast_0)
qed

lemma init_ops_eq:
  "init_ops g dev i =
     (if k_ioctl_init dev i <s 0 then [Select i]
      else if k_reset dev i <s 0 then [Select i, Write (Some i) [RESET]]
      else [Select i, Write (Some i) [RESET], Wait 250]
        @ (if g then [Read (Some i) IDREG 1] else [])
        @ (if g \<and> (k_idreg dev i <s 0 \<or> k_idreg dev i AND 0xf8 \<noteq> 0xc8) then []
           else [Write (Some i) [CONFIG, 0x80]]))"
  by (simp add: init_ops_def init_adt74x0_def good_i2c_bus_block_def prim_defs start_def Let_def)

lemma init_code_eq:
  "init_code g dev i =
     (if k_ioctl_init dev i <s 0 then - 1
      else if k_reset dev i <s 0 then - 2
      else if g \<and> k_idreg dev i <s 0 then - 3
      else if g \<and> k_idreg dev i AND 0xf8 \<noteq> 0xc8 then - 4
      else if k_config dev i <s 0 then - 5 else 0)"
  by (simp add: init_code_def init_adt74x0_def good_i2c_bus_block_def prim_defs start_def Let_def)

lemma init_lines_eq:
  "init_lines g dev i =
     (if g \<and> \<not> k_ioctl_init dev i <s 0 \<and> \<not> k_reset dev i <s 0 \<and> \<not> k_idreg dev i <s 0
      then [HasID i (k_idreg dev i)] else [])"
  by (simp add: init_lines_def init_adt74x0_def good_i2c_bus_block_def prim_defs start_def Let_def)

lemma read_ops_eq:
  "read_ops dev i =
     (if k_ioctl_read dev i <s 0 then [Select i] else [Select i, Read (Some i) T_MSB 2])"
  by (simp add: read_ops_def read_adt74x0_def prim_defs start_def Let_def)

lemma read_code_eq:
  "read_code dev i = (if k_ioctl_read dev i <s 0 then - 1 else if k_t_msb dev i <s 0 then - 6 else 0)"
  by (simp add: read_code_def read_adt74x0_def prim_defs start_def Let_def)

lemma read_temp_eq:
  "read_temp dev i =
     (if k_ioctl_read dev i <s 0 \<or> k_t_msb dev i <s 0 then None
      else Some (celsius (t128_of_word (k_t_msb dev i))))"
  by (simp add: read_temp_def read_adt74x0_def prim_defs start_def Let_def)

lemma init_opsb_eq:
  "init_opsb lib i =
     (if b_reset lib i \<noteq> 0 then [Select i, Write (Some i) [RESET]]
      else [Select i, Write (Some i) [RESET], Wait 1000, Write (Some i) [CONFIG, 0x80]]
        @ (if b_config lib i \<noteq> 0 then [] else [Read (Some i) IDREG 1]))"
  by (simp add: init_opsb_def init_adt74x0b_def prim_defs start_def Let_def split: prod.splits)

lemma init_codeb_eq:
  "init_codeb lib i =
     (if b_reset lib i \<noteq> 0 then - (0x10 + ucast (b_reset lib i))
      else if b_config lib i \<noteq> 0 then - (0x20 + ucast (b_config lib i))
      else if fst (b_idreg lib i) \<noteq> 0 then - (0x30 + ucast (fst (b_idreg lib i)))
      else if snd (b_idreg lib i) AND 0xf8 \<noteq> 0xc8 then - 0x3f else 0)"
  by (simp add: init_codeb_def init_adt74x0b_def prim_defs start_def Let_def id_mask split: prod.splits)

lemma read_opsb_eq: "read_opsb lib i = [Select i, Read (Some i) T_MSB 2]"
  by (simp add: read_opsb_def read_adt74x0b_def prim_defs start_def Let_def split: prod.splits)

lemma read_codeb_eq:
  "read_codeb lib i =
     (if fst (b_t_msb lib i) \<noteq> 0 then - (0x40 + ucast (fst (b_t_msb lib i))) else 0)"
  by (simp add: read_codeb_def read_adt74x0b_def prim_defs start_def Let_def split: prod.splits)

lemma read_tempb_eq:
  "read_tempb lib i =
     (if fst (b_t_msb lib i) \<noteq> 0 then None
      else Some (celsius (t128_of_buff (fst (snd (b_t_msb lib i))) (snd (snd (b_t_msb lib i))))))"
  by (simp add: read_tempb_def read_adt74x0b_def prim_defs start_def Let_def split: prod.splits)

lemma init_ops_target: "op \<in> set (init_ops g dev i) \<Longrightarrow> addressed op \<Longrightarrow> target op = Some i"
  by (auto simp: init_ops_eq split: if_splits)

lemma read_ops_target: "op \<in> set (read_ops dev i) \<Longrightarrow> addressed op \<Longrightarrow> target op = Some i"
  by (auto simp: read_ops_eq split: if_splits)

lemma init_opsb_target: "op \<in> set (init_opsb lib i) \<Longrightarrow> addressed op \<Longrightarrow> target op = Some i"
  by (auto simp: init_opsb_eq split: if_splits)

lemma read_opsb_target: "op \<in> set (read_opsb lib i) \<Longrightarrow> addressed op \<Longrightarrow> target op = Some i"
  by (auto simp: read_opsb_eq split: if_splits)

lemma main_addressed:
  assumes "op \<in> set (trace (snd (snd (main g dev argv))))" "addressed op"
  shows "\<exists>i. window i \<and> target op = Some i"
proof (cases "k_open dev <s 0")
  case True
  then show ?thesis using assms by (simp add: main_fail)
next
  case False
  from assms(1) consider
      i where "window i" "op \<in> set (init_ops g dev i)"
    | i where "eligible g dev i" "op \<in> set (read_ops dev i)"
    | "op \<in> {Open (filename argv), Wait 1000000, Close}"
    by (auto simp: main_trace [OF False] split: if_splits)
  then show ?thesis
  proof cases
    case 1
    then show ?thesis using assms(2) init_ops_target by blast
  next
    case 2
    then show ?thesis using assms(2) read_ops_target unfolding eligible_def by blast
  next
    case 3
    then show ?thesis using assms(2) by auto
  qed
qed

lemma mainb_addressed:
  assumes "op \<in> set (trace (snd (snd (mainb debug lib))))" "addressed op"
  shows "\<exists>i. window i \<and> target op = Some i"
proof -
  from assms(1) consider
      i where "window i" "op \<in> set (init_opsb lib i)"
    | i where "eligibleb lib i" "op \<in> set (read_opsb lib i)"
    | "op \<in> {LibInit, I2cBegin, SetBaudrate 10000, Wait 1000000, I2cEnd, LibClose}"
    unfolding mainb_trace using window_set by (auto simp del: upt_rec_numeral split: if_splits)
  then show ?thesis
  proof cases
    case 1
    then show ?thesis using assms(2) init_opsb_target by blast
  next
    case 2
    then show ?thesis using assms(2) read_opsb_target unfolding eligibleb_def by blast
  next
    case 3
    then show ?thesis using assms(2) by auto
  qed
qed

lemmas sample_defs = dev_ok_def dev_reset_fails_def dev_read_fails_def dev_no_open_def
  lib_ok_def lib_reset_fails_def lib_read_fails_def lib_f0_def dev_id_def lib_id_def

lemma result_line_for: "result_for a (result_line dev i) \<longleftrightarrow> i = a"
  by (simp add: result_line_def)

lemma result_lineb_for: "result_for a (result_lineb lib i) \<longleftrightarrow> i = a"
  by (simp add: result_lineb_def)

lemma init_lines_no_result: "filter (result_for a) (init_lines g dev i) = []"
  by (simp add: init_lines_eq)

lemma debug_lines_no_result: "filter (result_for a) (debug_lines debug lib i) = []"
  by (simp add: debug_lines_def)

lemma results_for_pass:
  assumes "a < I2C_ADDRS" "\<And>i. result_for a (r i) \<longleftrightarrow> i = a"
  shows "filter (result_for a) (concat (map (\<lambda>i. if e i then [r i] else []) [0..<I2C_ADDRS])) =
           (if e a then [r a] else [])"
proof -
  have "filter (result_for a) (concat (map (\<lambda>i. if e i then [r i] else []) [0..<I2C_ADDRS])) =
        filter (result_for a) (if e a then [r a] else [])"
    using assms by (intro filter_concat_map_one) auto
  then show ?thesis using assms(2) by simp
qed

lemma main_results_for:
  assumes "\<not> k_open dev <s 0" "a < I2C_ADDRS"
  shows "filter (result_for a) (out (snd (snd (main g dev argv)))) =
           (if eligible g dev a then [result_line dev a] else [])"
proof -
  have "filter (result_for a)
          (concat (map (\<lambda>i. if window i then init_lines g dev i else []) [0..<I2C_ADDRS])) = []"
    by (rule filter_concat_map_none) (simp add: init_lines_no_result)
  moreover have "filter (result_for a)
      (concat (map (\<lambda>i. if eligible g dev i then [result_line dev i] else []) [0..<I2C_ADDRS])) =
      (if eligible g dev a then [result_line dev a] else [])"
    using assms(2) by (rule results_for_pass) (rule result_line_for)
  ultimately show ?thesis
    by (simp add: main_out [OF assms(1)])
qed

lemma mainb_results_for:
  assumes "a < I2C_ADDRS"
  shows "filter (result_for a) (out (snd (snd (mainb debug lib)))) =
           (if eligibleb lib a then [result_lineb lib a] else [])"
proof -
  have "filter (result_for a) (concat (map (debug_lines debug lib) [0x48..<0x4c])) = []"
    by (rule filter_concat_map_none) (simp add: debug_lines_no_result)
  moreover have "filter (result_for a)
      (concat (map (\<lambda>i. if eligibleb lib i then [result_lineb lib i] else []) [0..<I2C_ADDRS])) =
      (if eligibleb lib a then [result_lineb lib a] else [])"
    using assms by (rule results_for_pass) (rule result_lineb_for)
  ultimately show ?thesis
    by (simp add: mainb_out del: upt_rec_numeral)
qed

lemma result_line_eq:
  "result_line dev a =
     (if read_code dev a <s 0 then ErrorLine a (read_code dev a)
      else TempLine a (Some (celsius (t128_of_word (k_t_msb dev a)))))"
  by (simp add: result_line_def read_temp_eq read_code_eq word_sless_alt)

lemma read_codeb_sless: "read_codeb lib a <s 0 \<longleftrightarrow> fst (b_t_msb lib a) \<noteq> 0"
proof (cases "fst (b_t_msb lib a) = 0")
  case True
  then show ?thesis by (simp add: read_codeb_eq)
next
  case False
  then have "read_codeb lib a = - (0x40 + ucast (fst (b_t_msb lib a)))"
    by (simp only: read_codeb_eq not_False_eq_True if_True)
  then show ?thesis using False neg_codes(4) by (simp only:) simp
qed

lemma result_lineb_eq:
  "result_lineb lib a =
     (if read_codeb lib a <s 0 then ErrorLine a (read_codeb lib a)
      else TempLine a (Some (celsius (t128_of_buff (fst (snd (b_t_msb lib a)))
                                                     (snd (snd (b_t_msb lib a)))))))"
  by (simp add: result_lineb_def read_tempb_eq read_codeb_sless)

lemma narrow_3f: "(ucast (- 0x3f :: 32 word) :: 8 word) = - 0x3f"
  by code_simp

lemma narrow_init_codeb:
  "(ucast (init_codeb lib i) :: 8 word) =
     (if b_reset lib i \<noteq> 0 then - (0x10 + b_reset lib i)
      else if b_config lib i \<noteq> 0 then - (0x20 + b_config lib i)
      else if fst (b_idreg lib i) \<noteq> 0 then - (0x30 + fst (b_idreg lib i))
      else if snd (b_idreg lib i) AND 0xf8 \<noteq> 0xc8 then - 0x3f else 0)"
  by (simp add: init_codeb_eq narrow_negs narrow_3f del: minus_add_distrib)

lemma eligible_iff:
  "eligible g dev i \<longleftrightarrow> window i \<and> init_code g dev i = 0"
  by (simp add: eligible_def init_code_neg_iff)

lemma sample_temperature:
  "celsius (t128_of_word 0xc00b) = 47 / 2" "celsius (t128_of_buff 0x0b 0xc0) = 47 / 2"
  by (simp_all add: celsius_def t128_of_word_def t128_of_buff_def)

lemma sample_text: "fmt_02x 0x49 = ''49''" "fmt_5f (47 / 2) = ''23.50000''"
  by (simp_all add: fmt_02x_def fmt_5f_def round_half_even_def Let_def nth_Cons')

lemma init_lines_no_error: "filter is_error (init_lines g dev i) = []"
  by (simp add: init_lines_eq)

lemma debug_lines_no_error: "filter is_error (debug_lines debug lib i) = []"
  by (simp add: debug_lines_def)

lemma result_line_error:
  "filter is_error [result_line dev i] =
     (if read_code dev i <s 0 then [ErrorLine i (read_code dev i)] else [])"
  by (simp add: result_line_def)

lemma result_lineb_error:
  "filter is_error [result_lineb lib i] =
     (if read_codeb lib i <s 0 then [ErrorLine i (read_codeb lib i)] else [])"
  by (simp add: result_lineb_def)

lemma main_errors:
  assumes "\<not> k_open dev <s 0"
  shows "filter is_error (out (snd (snd (main g dev argv)))) =
           concat (map (\<lambda>i. if eligible g dev i \<and> read_code dev i <s 0
                               then [ErrorLine i (read_code dev i)] else []) [0..<I2C_ADDRS])"
proof -
  have "filter is_error
          (concat (map (\<lambda>i. if window i then init_lines g dev i else []) [0..<I2C_ADDRS])) = []"
    by (rule filter_concat_map_none) (simp add: init_lines_no_error)
  moreover have "(\<lambda>i. filter is_error (if eligible g dev i then [result_line dev i] else [])) =
      (\<lambda>i. if eligible g dev i \<and> read_code dev i <s 0
            then [ErrorLine i (read_code dev i)] else [])"
    by (rule ext) (simp add: result_line_def)
  ultimately show ?thesis
    by (simp add: main_out [OF assms] filter_concat comp_def)
qed

lemma mainb_errors:
  "filter is_error (out (snd (snd (mainb debug lib)))) =
     concat (map (\<lambda>i. if eligibleb lib i \<and> read_codeb lib i <s 0
                         then [ErrorLine i (read_codeb lib i)] else []) [0..<I2C_ADDRS])"
proof -
  have "filter is_error (concat (map (debug_lines debug lib) [0x48..<0x4c])) = []"
    by (rule filter_concat_map_none) (simp add: debug_lines_no_error)
  moreover have "(\<lambda>i. filter is_error (if eligibleb lib i then [result_lineb lib i] else [])) =
      (\<lambda>i. if eligibleb lib i \<and> read_codeb lib i <s 0
            then [ErrorLine i (read_codeb lib i)] else [])"
    by (rule ext) (simp add: result_lineb_def)
  ultimately show ?thesis
    by (simp add: mainb_out filter_concat comp_def del: upt_rec_numeral)
qed

lemma concat_map_one:
  assumes "distinct xs" "a \<in> set xs" "\<And>i. i \<in> set xs \<Longrightarrow> i \<noteq> a \<Longrightarrow> f i = []"
  shows "concat (map f xs) = f a"
  using filter_concat_map_one [of xs a "\<lambda>_. True" f] assms by simp

lemma main_no_error_on_fail:
  "k_open dev <s 0 \<Longrightarrow> ErrorLine i c \<notin> set (out (snd (snd (main g dev argv))))"
  by (simp add: main_fail)

lemma error_line_mem: "ErrorLine i c \<in> set xs \<longleftrightarrow> ErrorLine i c \<in> set (filter is_error xs)"
  by simp

lemma main_single_error:
  assumes o: "\<not> k_open dev <s 0" and w: "window a" and ea: "eligible g dev a"
    and r: "read_code dev a <s 0"
    and others: "\<And>b. b \<noteq> a \<Longrightarrow> eligible g dev b \<Longrightarrow> \<not> read_code dev b <s 0"
  shows "filter is_error (out (snd (snd (main g dev argv)))) = [ErrorLine a (read_code dev a)]"
proof -
  have "concat (map (\<lambda>i. if eligible g dev i \<and> read_code dev i <s 0
                          then [ErrorLine i (read_code dev i)] else []) [0..<I2C_ADDRS]) =
        (if eligible g dev a \<and> read_code dev a <s 0
         then [ErrorLine a (read_code dev a)] else [])"
    using window_less [OF w] others by (intro concat_map_one) auto
  then show ?thesis
    using ea r by (simp add: main_errors [OF o])
qed

lemma mainb_single_error:
  assumes w: "window a" and ea: "eligibleb lib a"
    and r: "read_codeb lib a <s 0"
    and others: "\<And>b. b \<noteq> a \<Longrightarrow> eligibleb lib b \<Longrightarrow> \<not> read_codeb lib b <s 0"
  shows "filter is_error (out (snd (snd (mainb debug lib)))) = [ErrorLine a (read_codeb lib a)]"
proof -
  have "concat (map (\<lambda>i. if eligibleb lib i \<and> read_codeb lib i <s 0
                          then [ErrorLine i (read_codeb lib i)] else []) [0..<I2C_ADDRS]) =
        (if eligibleb lib a \<and> read_codeb lib a <s 0
         then [ErrorLine a (read_codeb lib a)] else [])"
    using window_less [OF w] others by (intro concat_map_one) auto
  then show ?thesis
    using ea r by (simp add: mainb_errors)
qed

lemma dev_read_fails_errors:
  "filter is_error (out (snd (snd (main False dev_read_fails [])))) = [ErrorLine 0x48 (- 6)]"
proof -
  have "filter is_error (out (snd (snd (main False dev_read_fails [])))) =
          [ErrorLine 0x48 (read_code dev_read_fails 0x48)]"
  proof (rule main_single_error)
    show "\<not> k_open dev_read_fails <s 0"
      by (simp add: sample_defs word_sless_alt)
    show "window 0x48"
      by (simp add: window_def)
    show "eligible False dev_read_fails 0x48"
      by (simp add: eligible_iff init_code_eq sample_defs word_sless_alt window_def)
    show "read_code dev_read_fails 0x48 <s 0"
      by (simp add: read_code_eq sample_defs word_sless_alt)
    show "\<not> read_code dev_read_fails b <s 0" if "b \<noteq> 0x48" for b
      using that by (simp add: read_code_eq sample_defs word_sless_alt)
  qed
  moreover have "read_code dev_read_fails 0x48 = - 6"
    by (simp add: read_code_eq sample_defs word_sless_alt)
  ultimately show ?thesis by simp
qed

lemma lib_read_fails_errors:
  "filter is_error (out (snd (snd (mainb False lib_read_fails)))) = [ErrorLine 0x48 (- 65)]"
proof -
  have "filter is_error (out (snd (snd (mainb False lib_read_fails)))) =
          [ErrorLine 0x48 (read_codeb lib_read_fails 0x48)]"
  proof (rule mainb_single_error)
    show "window 0x48"
      by (simp add: window_def)
    show "eligibleb lib_read_fails 0x48"
      by (simp add: eligibleb_def narrow_init_codeb sample_defs window_def)
    show "read_codeb lib_read_fails 0x48 <s 0"
      by (simp add: read_codeb_sless sample_defs)
    show "\<not> read_codeb lib_read_fails b <s 0" if "b \<noteq> 0x48" for b
      using that by (simp add: read_codeb_sless sample_defs)
  qed
  moreover have "read_codeb lib_read_fails 0x48 = - 65"
    by (simp add: read_codeb_eq sample_defs)
  ultimately show ?thesis by simp
qed

lemma error_text: "render (ErrorLine 0x48 (- 6)) = ''# 0x48 error -6'' @ nl"
  by (simp add: fmt_02x_def fmt_d_def nth_Cons')

lemma about_list:
  assumes "distinct xs" "\<And>i l. l \<in> set (f i) \<Longrightarrow> line_addr l = Some i"
  shows "filter (\<lambda>l. line_addr l = Some a) (concat (map f xs)) = (if a \<in> set xs then f a else [])"
proof (cases "a \<in> set xs")
  case True
  have "filter (\<lambda>l. line_addr l = Some a) (concat (map f xs)) = filter (\<lambda>l. line_addr l = Some a) (f a)"
    using assms(1) True
  proof (rule filter_concat_map_one)
    fix i assume "i \<noteq> a"
    then show "filter (\<lambda>l. line_addr l = Some a) (f i) = []"
      using assms(2) [of _ i] by (auto simp: filter_empty_conv)
  qed
  moreover have "filter (\<lambda>l. line_addr l = Some a) (f a) = f a"
    using assms(2) [of _ a] by (simp add: filter_id_conv)
  ultimately show ?thesis using True by simp
next
  case False
  have "filter (\<lambda>l. line_addr l = Some a) (concat (map f xs)) = []"
  proof (rule filter_concat_map_none)
    fix i assume "i \<in> set xs"
    then have "i \<noteq> a" using False by auto
    then show "filter (\<lambda>l. line_addr l = Some a) (f i) = []"
      using assms(2) [of _ i] by (auto simp: filter_empty_conv)
  qed
  then show ?thesis using False by simp
qed

lemma main_lines_about:
  assumes "\<not> k_open dev <s 0" "a < I2C_ADDRS"
  shows "filter (\<lambda>l. line_addr l = Some a) (out (snd (snd (main g dev argv)))) =
           (if window a then init_lines g dev a else [])
           @ (if eligible g dev a then [result_line dev a] else [])"
proof -
  have "filter (\<lambda>l. line_addr l = Some a)
          (concat (map (\<lambda>i. if window i then init_lines g dev i else []) [0..<I2C_ADDRS])) =
        (if a \<in> set [0..<I2C_ADDRS] then (if window a then init_lines g dev a else []) else [])"
    by (rule about_list) (auto simp: init_lines_eq split: if_splits)
  moreover have "filter (\<lambda>l. line_addr l = Some a)
          (concat (map (\<lambda>i. if eligible g dev i then [result_line dev i] else []) [0..<I2C_ADDRS])) =
        (if a \<in> set [0..<I2C_ADDRS] then (if eligible g dev a then [result_line dev a] else []) else [])"
    by (rule about_list) (auto simp: result_line_def split: if_splits)
  ultimately show ?thesis
    using assms(2) by (simp add: main_out [OF assms(1)])
qed

lemma mainb_lines_about:
  assumes "a < I2C_ADDRS"
  shows "filter (\<lambda>l. line_addr l = Some a) (out (snd (snd (mainb debug lib)))) =
           (if window a then debug_lines debug lib a else [])
           @ (if eligibleb lib a then [result_lineb lib a] else [])"
proof -
  have "filter (\<lambda>l. line_addr l = Some a) (concat (map (debug_lines debug lib) [0x48..<0x4c])) =
        (if a \<in> set [0x48..<0x4c] then debug_lines debug lib a else [])"
    by (rule about_list) (auto simp: debug_lines_def split: if_splits)
  moreover have "filter (\<lambda>l. line_addr l = Some a)
          (concat (map (\<lambda>i. if eligibleb lib i then [result_lineb lib i] else []) [0..<I2C_ADDRS])) =
        (if a \<in> set [0..<I2C_ADDRS] then (if eligibleb lib a then [result_lineb lib a] else []) else [])"
    by (rule about_list) (auto simp: result_lineb_def split: if_splits)
  ultimately show ?thesis
    using assms unfolding window_set by (simp add: mainb_out del: upt_rec_numeral)
qed

lemma same_at_summaries:
  assumes "same_at d1 d2 b"
  shows "init_code g d1 b = init_code g d2 b" "init_lines g d1 b = init_lines g d2 b"
    "result_line d1 b = result_line d2 b"
  using assms
  by (simp_all add: same_at_def init_code_eq init_lines_eq result_line_def read_code_eq read_temp_eq)

lemma same_atb_summaries:
  assumes "same_atb l1 l2 b"
  shows "init_codeb l1 b = init_codeb l2 b" "result_lineb l1 b = result_lineb l2 b"
  using assms
  by (simp_all add: same_atb_def init_codeb_eq result_lineb_def read_codeb_eq read_tempb_eq)

lemma ucast8_not_neg: "\<not> (ucast b :: 32 word) <s 0" for b :: "8 word"
proof -
  have p: "(2 :: int) ^ 31 = 2147483648"
    by simp
  have "0 \<le> uint b" "uint b < 256"
    using uint8_bound [of b] by blast+
  then have "- 2147483648 \<le> uint b" "uint b < 2147483648"
    by linarith+
  then have "signed_take_bit 31 (uint b) = uint b"
    unfolding p [symmetric] by (rule signed_take_bit_int_eq_self)
  moreover have "sint (word_of_int k :: 32 word) = signed_take_bit 31 k" for k
    by (simp add: sint_sbintrunc')
  moreover have "(ucast b :: 32 word) = word_of_int (uint b)"
    by (rule ucast_eq)
  ultimately have "sint (ucast b :: 32 word) = uint b"
    by (simp only:)
  then show ?thesis
    using \<open>0 \<le> uint b\<close> by (simp only: word_sless_alt sint_0)
qed

lemma main_temp_read:
  assumes "Read (Some a) T_MSB 2 \<in> set (trace (snd (snd (main g dev argv))))"
  shows "\<not> k_open dev <s 0 \<and> eligible g dev a"
proof (cases "k_open dev <s 0")
  case True
  then show ?thesis using assms by (simp add: main_fail)
next
  case False
  from assms consider
      i where "window i" "Read (Some a) T_MSB 2 \<in> set (init_ops g dev i)"
    | i where "eligible g dev i" "Read (Some a) T_MSB 2 \<in> set (read_ops dev i)"
    by (auto simp: main_trace [OF False] split: if_splits)
  then show ?thesis
  proof cases
    case 1
    then show ?thesis by (auto simp: init_ops_eq split: if_splits)
  next
    case 2
    then show ?thesis using False by (auto simp: read_ops_eq split: if_splits)
  qed
qed

lemma mainb_temp_read:
  assumes "Read (Some a) T_MSB 2 \<in> set (trace (snd (snd (mainb debug lib))))"
  shows "eligibleb lib a"
proof -
  from assms consider
      i where "Read (Some a) T_MSB 2 \<in> set (init_opsb lib i)"
    | i where "eligibleb lib i" "Read (Some a) T_MSB 2 \<in> set (read_opsb lib i)"
    unfolding mainb_trace by (auto simp del: upt_rec_numeral split: if_splits)
  then show ?thesis
  proof cases
    case 1
    then show ?thesis by (auto simp: init_opsb_eq split: if_splits)
  next
    case 2
    then show ?thesis by (auto simp: read_opsb_eq split: if_splits)
  qed
qed

lemma id_codes: "(- 4 :: 32 word) <s 0" "(- 4 :: 32 word) \<noteq> 0" "(ucast (- 4 :: 32 word) :: 8 word) = - 4"
  "(- 0x3f :: 32 word) <s 0" "(- 0x3f :: 8 word) \<noteq> 0" "(- 0x3f :: 32 word) \<noteq> 0"
  by (simp_all add: word_sless_alt narrow_codes)

lemma narrowing_loses_failure:
  "fst (init_adt74x0b lib_f0 0x48 start) = - 256
   \<and> fst (snd (mainb False lib_f0)) ! 0x48 = 0
   \<and> Read (Some 0x48) T_MSB 2 \<in> set (trace (snd (snd (mainb False lib_f0))))"
proof -
  have w: "window 0x48" "(0x48 :: nat) < I2C_ADDRS" "(0x48 :: nat) \<in> set [0..<I2C_ADDRS]"
    by (simp_all add: window_def I2C_ADDRS_def)
  have "fst (init_adt74x0b lib_f0 0x48 start) = - 256"
    by (simp add: init_adt74x0b_fst init_codeb_eq lib_f0_def sample_defs)
  moreover have z: "(ucast (init_codeb lib_f0 0x48) :: 8 word) = 0"
    by (simp add: narrow_init_codeb lib_f0_def sample_defs)
  then have "fst (snd (mainb False lib_f0)) ! 0x48 = 0"
    using w(1) by (simp add: mainb_devs [OF w(2)] recordedb_def)
  moreover have "eligibleb lib_f0 0x48"
    using z w(1) by (simp add: eligibleb_def)
  then have "Read (Some 0x48) T_MSB 2 \<in> set (trace (snd (snd (mainb False lib_f0))))"
    using w(3) unfolding mainb_trace
    by (auto simp: read_opsb_eq simp del: upt_rec_numeral intro!: bexI [of _ "0x48"])
  ultimately show ?thesis by blast
qed

lemma init_codeb_sless: "init_codeb lib a = 0 \<or> init_codeb lib a <s 0"
  using neg_codes(1) [of "b_reset lib a"] neg_codes(2) [of "b_config lib a"]
    neg_codes(3) [of "fst (b_idreg lib a)"] id_codes(4)
  unfolding init_codeb_eq by (simp only: split: if_splits) blast

lemma init_code_sless: "init_code g dev a = 0 \<or> init_code g dev a <s 0"
  by (simp add: init_code_neg_iff)

lemma target_addressed: "target op = Some x \<Longrightarrow> addressed op"
  by (cases op) simp_all


lemma init_plan_sequence: "map fst (init_plan g dev a) = init_sequence g a"
  by (simp add: init_plan_def init_sequence_def)

lemma init_planb_sequence: "map fst (init_planb lib a) = init_sequenceb a"
  by (simp add: init_planb_def init_sequenceb_def)

lemma init_ops_plan: "init_ops g dev a = upto_first_failure (init_plan g dev a)"
  by (simp add: init_ops_eq init_plan_def)

lemma init_opsb_plan: "init_opsb lib a = upto_first_failure (init_planb lib a)"
  by (simp add: init_opsb_eq init_planb_def)

lemma init_code_plan: "init_code g dev a = 0 \<longleftrightarrow> list_all (\<lambda>s. \<not> snd s) (init_plan g dev a)"
  by (auto simp: init_code_eq init_plan_def)

lemma init_codeb_zero:
  "init_codeb lib a = 0 \<longleftrightarrow>
     b_reset lib a = 0 \<and> b_config lib a = 0 \<and> fst (b_idreg lib a) = 0
     \<and> snd (b_idreg lib a) AND 0xf8 = 0xc8"
proof -
  have n: "- (0x10 + ucast r :: 32 word) \<noteq> 0" "- (0x20 + ucast r :: 32 word) \<noteq> 0"
    "- (0x30 + ucast r :: 32 word) \<noteq> 0" for r :: "8 word"
    using neg_codes(1) [of r] neg_codes(2) [of r] neg_codes(3) [of r]
    by (auto simp only: word_sless_alt sint_0)
  show ?thesis
    unfolding init_codeb_eq using n id_codes(6) by (simp only: split: if_splits) blast
qed

lemma init_codeb_plan: "init_codeb lib a = 0 \<longleftrightarrow> list_all (\<lambda>s. \<not> snd s) (init_planb lib a)"
  by (simp add: init_codeb_zero init_planb_def)

lemma narrow_codeb_nonzero:
  assumes "b_reset lib a \<noteq> 0xF0" "b_config lib a \<noteq> 0xE0" "fst (b_idreg lib a) \<noteq> 0xD0"
    and n: "init_codeb lib a <s 0"
  shows "(ucast (init_codeb lib a) :: 8 word) \<noteq> 0"
proof -
  have "init_codeb lib a \<noteq> 0"
    using n by (auto simp: word_sless_alt)
  then have c: "b_reset lib a \<noteq> 0 \<or> b_config lib a \<noteq> 0 \<or> fst (b_idreg lib a) \<noteq> 0
     \<or> snd (b_idreg lib a) AND 0xf8 \<noteq> 0xc8"
    unfolding init_codeb_eq by (auto split: if_splits)
  show ?thesis
    unfolding narrow_init_codeb using c assms(1,2,3) id_codes(5)
    by (simp only: narrow_zero split: if_splits) blast
qed

lemma recordedb_failed:
  assumes "window a" "b_reset lib a \<noteq> 0xF0" "b_config lib a \<noteq> 0xE0" "fst (b_idreg lib a) \<noteq> 0xD0"
  shows "fst (snd (mainb debug lib)) ! a \<noteq> 0 \<longleftrightarrow> fst (init_adt74x0b lib a start) <s 0"
proof -
  have r: "fst (snd (mainb debug lib)) ! a = ucast (init_codeb lib a)"
    using assms(1) by (simp add: mainb_devs [OF window_less [OF assms(1)]] recordedb_def)
  show ?thesis
  proof (cases "init_codeb lib a <s 0")
    case True
    then show ?thesis
      using narrow_codeb_nonzero [OF assms(2,3,4) True] by (simp add: r init_adt74x0b_fst)
  next
    case False
    then have "init_codeb lib a = 0"
      using init_codeb_sless [of lib a] by blast
    then show ?thesis
      using False by (simp add: r init_adt74x0b_fst)
  qed
qed

section \<open>Decoding\<close>


text \<open>
  C9. The two decoders agree: for wire bytes \<open>msb\<close> then \<open>lsb\<close>, the generic variant's
  decoding of the SMBus word \<open>lsb<<8 | msb\<close> is the value the hardware-library variant
  decodes from the buffer \<open>[msb, lsb]\<close>.
\<close>

theorem decoders_agree:
  "celsius (t128_of_word (smbus_word msb lsb)) = celsius (t128_of_buff msb lsb)"
  by (simp only: t128_of_word_eq t128_of_buff_eq)

section \<open>The address window\<close>

text \<open>
  C2. For an address outside the window 0x48..0x4b, no operation of a run (address
  selection, write or read) is directed at it, in either variant; and no write or read
  is issued while no address is selected.
\<close>

theorem only_window_is_probed:
  assumes "\<not> window a"
  shows "Some a \<notin> target ` set (trace (snd (snd (main good_i2c_bus dev argv))))
       \<and> None \<notin> target ` set (filter addressed (trace (snd (snd (main good_i2c_bus dev argv)))))
       \<and> Some a \<notin> target ` set (trace (snd (snd (mainb debug lib))))
       \<and> None \<notin> target ` set (filter addressed (trace (snd (snd (mainb debug lib)))))"
proof -
  have "window i \<and> target op = Some i \<Longrightarrow> target op \<noteq> Some a \<and> target op \<noteq> None" for i op
    using assms by auto
  then have A: "target op \<noteq> Some a \<and> target op \<noteq> None"
    if "op \<in> set (trace (snd (snd (main good_i2c_bus dev argv))))" "addressed op" for op
    using main_addressed [OF that] by blast
  have B: "target op \<noteq> Some a \<and> target op \<noteq> None"
    if "op \<in> set (trace (snd (snd (mainb debug lib))))" "addressed op" for op
    using mainb_addressed [OF that] assms by auto
  have "Some a \<notin> target ` set tr \<and> None \<notin> target ` set (filter addressed tr)"
    if ok: "\<And>op. op \<in> set tr \<Longrightarrow> addressed op \<Longrightarrow> target op \<noteq> Some a \<and> target op \<noteq> None"
    for tr
  proof
    show "Some a \<notin> target ` set tr"
    proof
      assume "Some a \<in> target ` set tr"
      then obtain op where "op \<in> set tr" "target op = Some a"
        by force
      then show False
        using ok [of op] target_addressed [of op a] by simp
    qed
    show "None \<notin> target ` set (filter addressed tr)"
    proof
      assume "None \<in> target ` set (filter addressed tr)"
      then obtain op where "op \<in> set tr" "addressed op" "target op = None"
        by force
      then show False
        using ok [of op] by simp
    qed
  qed
  from this [of "trace (snd (snd (main good_i2c_bus dev argv)))", OF A]
    this [of "trace (snd (snd (mainb debug lib)))", OF B]
  show ?thesis
    by blast
qed

text \<open>The theorem at address 0x20, on the sample transports.\<close>

theorem only_window_is_probed_witness:
  "\<not> window 0x20
   \<and> Some 0x20 \<notin> target ` set (trace (snd (snd (main False dev_ok []))))
   \<and> None \<notin> target ` set (filter addressed (trace (snd (snd (main False dev_ok [])))))
   \<and> Some 0x20 \<notin> target ` set (trace (snd (snd (mainb False lib_ok))))
   \<and> None \<notin> target ` set (filter addressed (trace (snd (snd (mainb False lib_ok)))))"
  using only_window_is_probed [of "0x20" False dev_ok "[]" False lib_ok]
  by (simp add: window_def)


section \<open>Result lines\<close>

text \<open>
  C3, amended. For a candidate address \<open>a\<close> (with the device file open, in the generic
  variant), the result lines about \<open>a\<close> are: none when \<open>a\<close> is not recorded as
  initialised after the first pass (\<^verbatim>\<open>devs[a] <= 0\<close> in the generic variant,
  \<^verbatim>\<open>devs[a] != 0\<close> in the hardware-library variant); otherwise exactly one, the error
  line \<^verbatim>\<open># 0xNN error <code>\<close> when the read returned a negative code and the
  temperature line \<^verbatim>\<open>0xNN <temperature, 5 decimals>C\<close> when it returned 0. In the
  generic variant \<open>a\<close> is not recorded as initialised exactly when its initialisation
  returned a negative code; in the hardware-library variant likewise, for reason codes
  other than 0xF0 (reset), 0xE0 (configuration) and 0xD0 (identity read), whose codes
  narrow to 0 in \<^verbatim>\<open>devs\<close>.
\<close>

theorem one_result_line:
  assumes "window a" "\<not> k_open dev <s 0"
  shows "filter (result_for a) (out (snd (snd (main good_i2c_bus dev argv)))) =
           (if fst (snd (main good_i2c_bus dev argv)) ! a \<le>s 0 then []
            else if read_code dev a <s 0 then [ErrorLine a (read_code dev a)]
            else [TempLine a (Some (celsius (t128_of_word (k_t_msb dev a))))])
       \<and> (fst (snd (main good_i2c_bus dev argv)) ! a \<le>s 0
            \<longleftrightarrow> fst (init_adt74x0 good_i2c_bus dev a start) <s 0)
       \<and> filter (result_for a) (out (snd (snd (mainb debug lib)))) =
           (if fst (snd (mainb debug lib)) ! a \<noteq> 0 then []
            else if read_codeb lib a <s 0 then [ErrorLine a (read_codeb lib a)]
            else [TempLine a (Some (celsius (t128_of_buff (fst (snd (b_t_msb lib a)))
                                                            (snd (snd (b_t_msb lib a))))))])
       \<and> (b_reset lib a \<noteq> 0xF0 \<and> b_config lib a \<noteq> 0xE0 \<and> fst (b_idreg lib a) \<noteq> 0xD0 \<longrightarrow>
            (fst (snd (mainb debug lib)) ! a \<noteq> 0 \<longleftrightarrow> fst (init_adt74x0b lib a start) <s 0))
       \<and> render (ErrorLine a c) = ''# 0x'' @ fmt_02x a @ '' error '' @ fmt_d (sint c) @ nl
       \<and> render (TempLine a (Some t)) = ''0x'' @ fmt_02x a @ '' '' @ fmt_5f t @ ''C'' @ nl"
proof -
  have a: "a < I2C_ADDRS"
    using assms(1) by (rule window_less)
  have "fst (snd (main good_i2c_bus dev argv)) ! a \<le>s 0 \<longleftrightarrow> \<not> eligible good_i2c_bus dev a"
    by (simp add: main_devs [OF assms(2) a] recorded_sle)
  moreover have "fst (snd (mainb debug lib)) ! a \<noteq> 0 \<longleftrightarrow> \<not> eligibleb lib a"
    by (simp add: mainb_devs [OF a] recordedb_zero)
  moreover have "eligible good_i2c_bus dev a \<longleftrightarrow> \<not> fst (init_adt74x0 good_i2c_bus dev a start) <s 0"
    using assms(1) by (simp add: eligible_def init_code_def)
  ultimately have lines:
    "filter (result_for a) (out (snd (snd (main good_i2c_bus dev argv)))) =
           (if fst (snd (main good_i2c_bus dev argv)) ! a \<le>s 0 then []
            else if read_code dev a <s 0 then [ErrorLine a (read_code dev a)]
            else [TempLine a (Some (celsius (t128_of_word (k_t_msb dev a))))])"
    "fst (snd (main good_i2c_bus dev argv)) ! a \<le>s 0
            \<longleftrightarrow> fst (init_adt74x0 good_i2c_bus dev a start) <s 0"
    "filter (result_for a) (out (snd (snd (mainb debug lib)))) =
           (if fst (snd (mainb debug lib)) ! a \<noteq> 0 then []
            else if read_codeb lib a <s 0 then [ErrorLine a (read_codeb lib a)]
            else [TempLine a (Some (celsius (t128_of_buff (fst (snd (b_t_msb lib a)))
                                                            (snd (snd (b_t_msb lib a))))))])"
    by (simp_all add: main_results_for [OF assms(2) a] mainb_results_for [OF a]
        result_line_eq result_lineb_eq)
  have link: "b_reset lib a \<noteq> 0xF0 \<and> b_config lib a \<noteq> 0xE0 \<and> fst (b_idreg lib a) \<noteq> 0xD0 \<longrightarrow>
            (fst (snd (mainb debug lib)) ! a \<noteq> 0 \<longleftrightarrow> fst (init_adt74x0b lib a start) <s 0)"
    using recordedb_failed [OF assms(1)] by blast
  have rendered: "render (ErrorLine a c) = ''# 0x'' @ fmt_02x a @ '' error '' @ fmt_d (sint c) @ nl"
    "render (TempLine a (Some t)) = ''0x'' @ fmt_02x a @ '' '' @ fmt_5f t @ ''C'' @ nl"
    by simp_all
  show ?thesis
    using lines link rendered by (intro conjI)
qed

text \<open>
  The theorem at address 0x49 on the sample transports: one line, \<^verbatim>\<open>0x49 23.50000C\<close>;
  and at 0x48 on the transports whose reset write fails there: no line.
\<close>

theorem one_result_line_witness:
  "window 0x49 \<and> \<not> k_open dev_ok <s 0
   \<and> filter (result_for 0x49) (out (snd (snd (main False dev_ok [])))) = [TempLine 0x49 (Some (47 / 2))]
   \<and> filter (result_for 0x49) (out (snd (snd (mainb False lib_ok)))) = [TempLine 0x49 (Some (47 / 2))]
   \<and> render (TempLine 0x49 (Some (47 / 2))) = ''0x49 23.50000C'' @ nl
   \<and> window 0x48 \<and> \<not> k_open dev_reset_fails <s 0
   \<and> fst (init_adt74x0 False dev_reset_fails 0x48 start) <s 0
   \<and> filter (result_for 0x48) (out (snd (snd (main False dev_reset_fails [])))) = []
   \<and> b_reset lib_reset_fails 0x48 \<noteq> 0xF0 \<and> b_config lib_reset_fails 0x48 \<noteq> 0xE0
   \<and> fst (b_idreg lib_reset_fails 0x48) \<noteq> 0xD0
   \<and> fst (init_adt74x0b lib_reset_fails 0x48 start) <s 0
   \<and> filter (result_for 0x48) (out (snd (snd (mainb False lib_reset_fails)))) = []"
proof -
  have w: "window 0x49" "(0x49 :: nat) < I2C_ADDRS"
    by (simp_all add: window_def I2C_ADDRS_def)
  have o: "\<not> k_open dev_ok <s 0"
    by (simp add: sample_defs word_sless_alt)
  have e: "eligible False dev_ok 0x49" "eligibleb lib_ok 0x49"
    by (simp_all add: eligible_iff init_code_eq eligibleb_def narrow_init_codeb w(1) sample_defs
        word_sless_alt)
  have "\<not> fst (snd (main False dev_ok [])) ! 0x49 \<le>s 0"
    using e(1) by (simp only: main_devs [OF o w(2)] recorded_sle) simp
  moreover have "fst (snd (mainb False lib_ok)) ! 0x49 = 0"
    using e(2) recordedb_zero [of lib_ok "0x49"] by (simp only: mainb_devs [OF w(2)]) simp
  moreover have "\<not> read_code dev_ok 0x49 <s 0"
    by (simp add: read_code_eq sample_defs word_sless_alt)
  moreover have "\<not> read_codeb lib_ok 0x49 <s 0"
    by (simp add: read_codeb_sless sample_defs)
  moreover have "k_t_msb dev_ok 0x49 = 0xc00b" "b_t_msb lib_ok 0x49 = (0, 0x0b, 0xc0)"
    by (simp_all add: sample_defs)
  ultimately have ok: "filter (result_for 0x49) (out (snd (snd (main False dev_ok [])))) =
        [TempLine 0x49 (Some (47 / 2))]
      \<and> filter (result_for 0x49) (out (snd (snd (mainb False lib_ok)))) =
        [TempLine 0x49 (Some (47 / 2))]
      \<and> render (TempLine 0x49 (Some (47 / 2))) = ''0x49 23.50000C'' @ nl"
    using one_result_line [OF w(1) o, where good_i2c_bus = False and argv = "[]"
        and debug = False and lib = lib_ok and t = "47 / 2"]
    by (simp add: sample_temperature sample_text w(1) o)
  have w8: "window 0x48"
    by (simp add: window_def)
  have o8: "\<not> k_open dev_reset_fails <s 0"
    by (simp add: sample_defs word_sless_alt)
  have s8: "b_reset lib_reset_fails 0x48 \<noteq> 0xF0" "b_config lib_reset_fails 0x48 \<noteq> 0xE0"
    "fst (b_idreg lib_reset_fails 0x48) \<noteq> 0xD0"
    by (simp_all add: sample_defs)
  have f8: "fst (init_adt74x0 False dev_reset_fails 0x48 start) <s 0"
    "fst (init_adt74x0b lib_reset_fails 0x48 start) <s 0"
    by (simp_all add: init_adt74x0_fst init_code_eq init_adt74x0b_fst init_codeb_eq sample_defs
        word_sless_alt)
  have "filter (result_for 0x48) (out (snd (snd (main False dev_reset_fails [])))) = []
      \<and> filter (result_for 0x48) (out (snd (snd (mainb False lib_reset_fails)))) = []"
    using one_result_line [OF w8 o8, where good_i2c_bus = False and argv = "[]"
        and debug = False and lib = lib_reset_fails] s8 f8
    by simp
  then show ?thesis
    using ok w(1) o w8 o8 s8 f8 by blast
qed

text \<open>
  C3 as stated fails: when the reset write fails at candidate 0x48, initialisation
  returns -2 (generic) or -17 (hardware library) and the run prints no result line
  about 0x48, neither an error line nor a temperature.
\<close>

theorem one_line_per_candidate_counterexample:
  "window 0x48 \<and> \<not> k_open dev_reset_fails <s 0
   \<and> fst (init_adt74x0 False dev_reset_fails 0x48 start) = - 2
   \<and> filter (result_for 0x48) (out (snd (snd (main False dev_reset_fails [])))) = []
   \<and> fst (init_adt74x0b lib_reset_fails 0x48 start) = - 17
   \<and> filter (result_for 0x48) (out (snd (snd (mainb False lib_reset_fails)))) = []"
proof -
  have "\<not> k_open dev_reset_fails <s 0"
    by (simp add: sample_defs word_sless_alt)
  moreover from this
  have "filter (result_for 0x48) (out (snd (snd (main False dev_reset_fails [])))) = []"
    by (subst main_results_for)
      (simp_all add: I2C_ADDRS_def eligible_iff init_code_eq sample_defs word_sless_alt)
  moreover have "filter (result_for 0x48) (out (snd (snd (mainb False lib_reset_fails)))) = []"
    by (subst mainb_results_for)
      (simp_all add: I2C_ADDRS_def eligibleb_def narrow_init_codeb sample_defs)
  moreover have "fst (init_adt74x0 False dev_reset_fails 0x48 start) = - 2"
    by (simp add: init_adt74x0_fst init_code_eq sample_defs word_sless_alt)
  moreover have "fst (init_adt74x0b lib_reset_fails 0x48 start) = - 17"
    by (simp add: init_adt74x0b_fst init_codeb_eq sample_defs)
  ultimately show ?thesis
    by (simp add: window_def)
qed

section \<open>Fatal and non-fatal failures\<close>

text \<open>
  C4 (generic variant). When the device file cannot be opened, the exit status is 1, no
  printed line is about an address and nothing is sent on the bus. When it can, the
  exit status is 0 whatever the calls for the addresses answer. When the read of
  exactly one initialised candidate fails, the error lines of the run are the one line
  of that address.
\<close>

theorem fatal_boundary:
  "(k_open dev <s 0 \<longrightarrow>
      fst (main good_i2c_bus dev argv) = 1
      \<and> filter (\<lambda>l. line_addr l \<noteq> None) (out (snd (snd (main good_i2c_bus dev argv)))) = []
      \<and> filter addressed (trace (snd (snd (main good_i2c_bus dev argv)))) = [])
   \<and> (\<not> k_open dev <s 0 \<longrightarrow> fst (main good_i2c_bus dev argv) = 0)
   \<and> (\<not> k_open dev <s 0 \<and> window a
        \<and> \<not> fst (snd (main good_i2c_bus dev argv)) ! a \<le>s 0
        \<and> read_code dev a <s 0
        \<and> (\<forall>b. b \<noteq> a \<and> window b \<and> \<not> fst (snd (main good_i2c_bus dev argv)) ! b \<le>s 0
              \<longrightarrow> \<not> read_code dev b <s 0)
      \<longrightarrow> filter is_error (out (snd (snd (main good_i2c_bus dev argv))))
            = [ErrorLine a (read_code dev a)])"
proof (intro conjI impI)
  assume f: "k_open dev <s 0"
  show "fst (main good_i2c_bus dev argv) = 1"
    by (simp add: main_fail [OF f])
  show "filter (\<lambda>l. line_addr l \<noteq> None) (out (snd (snd (main good_i2c_bus dev argv)))) = []"
    by (simp add: main_fail [OF f])
  show "filter addressed (trace (snd (snd (main good_i2c_bus dev argv)))) = []"
    by (simp add: main_fail [OF f])
next
  assume "\<not> k_open dev <s 0"
  then show "fst (main good_i2c_bus dev argv) = 0"
    by (simp add: main_status)
next
  assume h: "\<not> k_open dev <s 0 \<and> window a
        \<and> \<not> fst (snd (main good_i2c_bus dev argv)) ! a \<le>s 0
        \<and> read_code dev a <s 0
        \<and> (\<forall>b. b \<noteq> a \<and> window b \<and> \<not> fst (snd (main good_i2c_bus dev argv)) ! b \<le>s 0
              \<longrightarrow> \<not> read_code dev b <s 0)"
  then have o: "\<not> k_open dev <s 0" and w: "window a" and r: "read_code dev a <s 0"
    by blast+
  have rec: "fst (snd (main good_i2c_bus dev argv)) ! b \<le>s 0 \<longleftrightarrow> \<not> eligible good_i2c_bus dev b"
    if "window b" for b
    using that by (simp add: main_devs [OF o window_less] recorded_sle)
  have ea: "eligible good_i2c_bus dev a"
    using h rec [OF w] by blast
  have others: "\<not> (eligible good_i2c_bus dev b \<and> read_code dev b <s 0)" if "b \<noteq> a" for b
  proof (cases "window b")
    case True
    then show ?thesis using h rec [OF True] that by blast
  next
    case False
    then show ?thesis by (simp add: eligible_def)
  qed
  have "concat (map (\<lambda>i. if eligible good_i2c_bus dev i \<and> read_code dev i <s 0
                          then [ErrorLine i (read_code dev i)] else []) [0..<I2C_ADDRS]) =
        (if eligible good_i2c_bus dev a \<and> read_code dev a <s 0
         then [ErrorLine a (read_code dev a)] else [])"
    using window_less [OF w] others by (intro concat_map_one) auto
  then show "filter is_error (out (snd (snd (main good_i2c_bus dev argv))))
            = [ErrorLine a (read_code dev a)]"
    using ea r by (simp add: main_errors [OF o])
qed

text \<open>
  The theorem on a device file that cannot be opened, and on a transport whose
  temperature read fails at 0x48 only.
\<close>

theorem fatal_boundary_witness:
  "k_open dev_no_open <s 0
   \<and> fst (main False dev_no_open []) = 1
   \<and> filter (\<lambda>l. line_addr l \<noteq> None) (out (snd (snd (main False dev_no_open [])))) = []
   \<and> \<not> k_open dev_read_fails <s 0
   \<and> fst (main False dev_read_fails []) = 0
   \<and> filter is_error (out (snd (snd (main False dev_read_fails [])))) = [ErrorLine 0x48 (- 6)]"
proof -
  have f: "k_open dev_no_open <s 0"
    by (simp add: sample_defs word_sless_alt)
  have o: "\<not> k_open dev_read_fails <s 0"
    by (simp add: sample_defs word_sless_alt)
  have w: "window 0x48"
    by (simp add: window_def)
  have e: "eligible False dev_read_fails b" if "window b" for b
    using that by (simp add: eligible_iff init_code_eq sample_defs word_sless_alt)
  have rec: "\<not> fst (snd (main False dev_read_fails [])) ! b \<le>s 0" if "window b" for b
    using e [OF that] that by (simp only: main_devs [OF o window_less] recorded_sle) simp
  have r: "read_code dev_read_fails 0x48 = - 6"
    by (simp add: read_code_eq sample_defs word_sless_alt)
  have r': "\<not> read_code dev_read_fails b <s 0" if "b \<noteq> 0x48" for b
    using that by (simp add: read_code_eq sample_defs word_sless_alt)
  have "filter is_error (out (snd (snd (main False dev_read_fails []))))
            = [ErrorLine 0x48 (read_code dev_read_fails 0x48)]"
    using fatal_boundary [of dev_read_fails False "[]" "0x48"] o w rec [OF w] r r'
    by (simp add: word_sless_alt)
  then show ?thesis
    using fatal_boundary [of dev_no_open False "[]" "0x48"]
      fatal_boundary [of dev_read_fails False "[]" "0x48"] f o r
    by simp
qed

section \<open>The identity check\<close>

text \<open>
  C5. Where the identity register is read (the generic variant built with
  \<^verbatim>\<open>GOOD_I2C_BUS\<close> once selection and reset succeeded; the hardware-library variant
  once reset and configuration succeeded) and the read yields the byte \<open>b\<close>, the check
  rejects the device exactly when \<open>b AND 0xF8 \<noteq> 0xC8\<close>: initialisation then returns the
  mismatch code (-4, respectively -0x3f), the code is recorded for the address, no
  result line is printed for it and its temperature is never read. 0xC8, 0xC9 and 0xCF
  pass; 0x00, 0xD0 and 0x48 are rejected.
\<close>

theorem identity_check:
  assumes "window a" "\<not> k_open dev <s 0"
    and "\<not> k_ioctl_init dev a <s 0" "\<not> k_reset dev a <s 0" "k_idreg dev a = ucast b"
    and "b_reset lib a = 0" "b_config lib a = 0" "b_idreg lib a = (0, b)"
  shows "(fst (init_adt74x0 True dev a w) = - 4 \<longleftrightarrow> b AND 0xF8 \<noteq> 0xC8)
       \<and> (b AND 0xF8 \<noteq> 0xC8 \<longrightarrow>
            fst (snd (main True dev argv)) ! a = - 4
            \<and> filter (result_for a) (out (snd (snd (main True dev argv)))) = []
            \<and> Read (Some a) T_MSB 2 \<notin> set (trace (snd (snd (main True dev argv)))))
       \<and> fst (init_adt74x0b lib a w) = (if b AND 0xF8 = 0xC8 then 0 else - 0x3f)
       \<and> (b AND 0xF8 \<noteq> 0xC8 \<longrightarrow>
            fst (snd (mainb debug lib)) ! a = - 0x3f
            \<and> filter (result_for a) (out (snd (snd (mainb debug lib)))) = []
            \<and> Read (Some a) T_MSB 2 \<notin> set (trace (snd (snd (mainb debug lib)))))
       \<and> (b \<in> {0xC8, 0xC9, 0xCF} \<longrightarrow>
            fst (init_adt74x0 True dev a w) \<noteq> - 4 \<and> fst (init_adt74x0b lib a w) = 0)
       \<and> (b \<in> {0x00, 0xD0, 0x48} \<longrightarrow>
            fst (init_adt74x0 True dev a w) = - 4 \<and> fst (init_adt74x0b lib a w) = - 0x3f)"
proof -
  have a: "a < I2C_ADDRS"
    using assms(1) by (rule window_less)
  have nn: "\<not> k_idreg dev a <s 0"
    unfolding assms(5) by (rule ucast8_not_neg)
  have m: "k_idreg dev a AND 0xf8 \<noteq> 0xc8 \<longleftrightarrow> b AND 0xF8 \<noteq> 0xC8"
    unfolding assms(5) by (simp add: id_mask)
  have cA: "init_code True dev a = (if b AND 0xF8 \<noteq> 0xC8 then - 4
                                     else if k_config dev a <s 0 then - 5 else 0)"
    using assms(3,4) nn m by (simp add: init_code_eq)
  have cB: "init_codeb lib a = (if b AND 0xF8 = 0xC8 then 0 else - 0x3f)"
    using assms(6,7,8) by (simp add: init_codeb_eq)
  have n5: "(- 5 :: 32 word) \<noteq> - 4" "(0 :: 32 word) \<noteq> - 4"
    by simp_all
  have A1: "fst (init_adt74x0 True dev a w) = - 4 \<longleftrightarrow> b AND 0xF8 \<noteq> 0xC8"
    using n5 by (simp add: init_adt74x0_fst cA)
  have B1: "fst (init_adt74x0b lib a w) = (if b AND 0xF8 = 0xC8 then 0 else - 0x3f)"
    by (simp add: init_adt74x0b_fst cB)
  have A2: "fst (snd (main True dev argv)) ! a = - 4
            \<and> filter (result_for a) (out (snd (snd (main True dev argv)))) = []
            \<and> Read (Some a) T_MSB 2 \<notin> set (trace (snd (snd (main True dev argv))))"
    if mm: "b AND 0xF8 \<noteq> 0xC8"
  proof -
    have c: "init_code True dev a = - 4"
      using mm by (simp add: cA)
    then have ne: "\<not> eligible True dev a"
      using id_codes by (simp add: eligible_def)
    have "fst (snd (main True dev argv)) ! a = - 4"
      using id_codes assms(1) by (simp add: main_devs [OF assms(2) a] recorded_def c)
    moreover have "filter (result_for a) (out (snd (snd (main True dev argv)))) = []"
      using ne by (simp add: main_results_for [OF assms(2) a])
    moreover have "Read (Some a) T_MSB 2 \<notin> set (trace (snd (snd (main True dev argv))))"
      using ne main_temp_read [of a True dev argv] by blast
    ultimately show ?thesis by blast
  qed
  have B2: "fst (snd (mainb debug lib)) ! a = - 0x3f
            \<and> filter (result_for a) (out (snd (snd (mainb debug lib)))) = []
            \<and> Read (Some a) T_MSB 2 \<notin> set (trace (snd (snd (mainb debug lib))))"
    if mm: "b AND 0xF8 \<noteq> 0xC8"
  proof -
    have c: "(ucast (init_codeb lib a) :: 8 word) = - 0x3f"
      using mm assms(6,7,8) by (simp add: narrow_init_codeb)
    then have ne: "\<not> eligibleb lib a"
      using id_codes by (simp add: eligibleb_def)
    have "fst (snd (mainb debug lib)) ! a = - 0x3f"
      using assms(1) by (simp add: mainb_devs [OF a] recordedb_def c)
    moreover have "filter (result_for a) (out (snd (snd (mainb debug lib)))) = []"
      using ne by (simp add: mainb_results_for [OF a])
    moreover have "Read (Some a) T_MSB 2 \<notin> set (trace (snd (snd (mainb debug lib))))"
      using ne mainb_temp_read [of a debug lib] by blast
    ultimately show ?thesis by blast
  qed
  have ex: "b \<in> {0xC8, 0xC9, 0xCF} \<longrightarrow> b AND 0xF8 = 0xC8"
    "b \<in> {0x00, 0xD0, 0x48} \<longrightarrow> b AND 0xF8 \<noteq> 0xC8"
    by auto
  have E1: "b \<in> {0xC8, 0xC9, 0xCF} \<longrightarrow>
            fst (init_adt74x0 True dev a w) \<noteq> - 4 \<and> fst (init_adt74x0b lib a w) = 0"
    using ex(1) by (simp only: A1 B1) simp
  have E2: "b \<in> {0x00, 0xD0, 0x48} \<longrightarrow>
            fst (init_adt74x0 True dev a w) = - 4 \<and> fst (init_adt74x0b lib a w) = - 0x3f"
    using ex(2) by (simp only: A1 B1) simp
  show ?thesis
    using A1 A2 B1 B2 E1 E2 by blast
qed

text \<open>The theorem at 0x48 for the identity bytes 0xD0 (rejected) and 0xC9 (accepted).\<close>

theorem identity_check_witness:
  "window 0x48 \<and> \<not> k_open (dev_id 0xD0) <s 0
   \<and> \<not> k_ioctl_init (dev_id 0xD0) 0x48 <s 0 \<and> \<not> k_reset (dev_id 0xD0) 0x48 <s 0
   \<and> k_idreg (dev_id 0xD0) 0x48 = ucast (0xD0 :: 8 word)
   \<and> b_reset (lib_id 0xD0) 0x48 = 0 \<and> b_config (lib_id 0xD0) 0x48 = 0
   \<and> b_idreg (lib_id 0xD0) 0x48 = (0, 0xD0)
   \<and> fst (init_adt74x0 True (dev_id 0xD0) 0x48 start) = - 4
   \<and> fst (snd (main True (dev_id 0xD0) [])) ! 0x48 = - 4
   \<and> filter (result_for 0x48) (out (snd (snd (main True (dev_id 0xD0) [])))) = []
   \<and> fst (init_adt74x0b (lib_id 0xD0) 0x48 start) = - 0x3f
   \<and> filter (result_for 0x48) (out (snd (snd (mainb False (lib_id 0xD0))))) = []
   \<and> fst (init_adt74x0 True (dev_id 0xC9) 0x48 start) \<noteq> - 4
   \<and> fst (init_adt74x0b (lib_id 0xC9) 0x48 start) = 0"
proof -
  have hD: "window 0x48" "\<not> k_open (dev_id 0xD0) <s 0"
    "\<not> k_ioctl_init (dev_id 0xD0) 0x48 <s 0" "\<not> k_reset (dev_id 0xD0) 0x48 <s 0"
    "k_idreg (dev_id 0xD0) 0x48 = ucast (0xD0 :: 8 word)"
    "b_reset (lib_id 0xD0) 0x48 = 0" "b_config (lib_id 0xD0) 0x48 = 0"
    "b_idreg (lib_id 0xD0) 0x48 = (0, 0xD0)"
    by (simp_all add: window_def dev_id_def lib_id_def sample_defs word_sless_alt)
  have h9: "window 0x48" "\<not> k_open (dev_id 0xC9) <s 0"
    "\<not> k_ioctl_init (dev_id 0xC9) 0x48 <s 0" "\<not> k_reset (dev_id 0xC9) 0x48 <s 0"
    "k_idreg (dev_id 0xC9) 0x48 = ucast (0xC9 :: 8 word)"
    "b_reset (lib_id 0xC9) 0x48 = 0" "b_config (lib_id 0xC9) 0x48 = 0"
    "b_idreg (lib_id 0xC9) 0x48 = (0, 0xC9)"
    by (simp_all add: window_def dev_id_def lib_id_def sample_defs word_sless_alt)
  have m: "(0xD0 :: 8 word) AND 0xF8 \<noteq> 0xC8" "(0xC9 :: 8 word) AND 0xF8 = 0xC8"
    by simp_all
  show ?thesis
    using identity_check [OF hD, where w = start and argv = "[]" and debug = False]
      identity_check [OF h9, where w = start and argv = "[]" and debug = False]
      hD m
    by simp
qed

section \<open>The steps of initialisation\<close>

text \<open>
  C6, amended. For a candidate address \<open>a\<close>, the generic variant issues select, reset,
  a wait of 250 microseconds, the identity read (only when built with
  \<^verbatim>\<open>GOOD_I2C_BUS\<close>) and the configuration write, in this order; the hardware-library
  variant issues select, reset, a wait of 1 ms, the configuration write and then the
  identity read. From any state, the operations issued are exactly those of this
  sequence up to and including the first step that fails, and all of them when none
  fails. The result is 0 exactly when no step fails; otherwise it is the negative code
  of the first failing step: -1 select, -2 reset, -3 identity read, -4 identity
  mismatch, -5 configuration in the generic variant; \<open>- (0x10 + s)\<close> reset,
  \<open>- (0x20 + s)\<close> configuration, \<open>- (0x30 + s)\<close> identity read for the reason code \<open>s\<close>, and
  -0x3f identity mismatch in the hardware-library variant. In the generic variant a
  negative code is stored in \<^verbatim>\<open>devs[a]\<close> (which stays negative) and a success leaves
  1 there; the hardware-library variant stores the code narrowed to 8 bits, which is 0
  on success. An address whose initialisation failed gets no result line and no
  temperature read; for the hardware-library variant this is shown for reason codes
  other than 0xF0 (reset), 0xE0 (configuration) and 0xD0 (identity read), whose codes
  narrow to 0.
\<close>

theorem init_steps:
  assumes "window a" "\<not> k_open dev <s 0"
    and "b_reset lib a \<noteq> 0xF0" "b_config lib a \<noteq> 0xE0" "fst (b_idreg lib a) \<noteq> 0xD0"
  shows "map fst (init_plan good_i2c_bus dev a) = init_sequence good_i2c_bus a
       \<and> trace (snd (init_adt74x0 good_i2c_bus dev a w)) =
            trace w @ upto_first_failure (init_plan good_i2c_bus dev a)
       \<and> (fst (init_adt74x0 good_i2c_bus dev a w) = 0
            \<longleftrightarrow> list_all (\<lambda>s. \<not> snd s) (init_plan good_i2c_bus dev a))
       \<and> fst (init_adt74x0 good_i2c_bus dev a w) =
            (if k_ioctl_init dev a <s 0 then - 1
             else if k_reset dev a <s 0 then - 2
             else if good_i2c_bus \<and> k_idreg dev a <s 0 then - 3
             else if good_i2c_bus \<and> k_idreg dev a AND 0xf8 \<noteq> 0xc8 then - 4
             else if k_config dev a <s 0 then - 5 else 0)
       \<and> map fst (init_planb lib a) = init_sequenceb a
       \<and> trace (snd (init_adt74x0b lib a w)) = trace w @ upto_first_failure (init_planb lib a)
       \<and> (fst (init_adt74x0b lib a w) = 0 \<longleftrightarrow> list_all (\<lambda>s. \<not> snd s) (init_planb lib a))
       \<and> fst (init_adt74x0b lib a w) =
            (if b_reset lib a \<noteq> 0 then - (0x10 + ucast (b_reset lib a))
             else if b_config lib a \<noteq> 0 then - (0x20 + ucast (b_config lib a))
             else if fst (b_idreg lib a) \<noteq> 0 then - (0x30 + ucast (fst (b_idreg lib a)))
             else if snd (b_idreg lib a) AND 0xf8 \<noteq> 0xc8 then - 0x3f else 0)
       \<and> prefix (trace (snd (init_adt74x0 good_i2c_bus dev a start))) (init_sequence good_i2c_bus a)
       \<and> (fst (init_adt74x0 good_i2c_bus dev a start) = 0
            \<or> fst (init_adt74x0 good_i2c_bus dev a start) <s 0)
       \<and> (fst (init_adt74x0 good_i2c_bus dev a start) = 0 \<longrightarrow>
            trace (snd (init_adt74x0 good_i2c_bus dev a start)) = init_sequence good_i2c_bus a
            \<and> fst (snd (main good_i2c_bus dev argv)) ! a = 1)
       \<and> (fst (init_adt74x0 good_i2c_bus dev a start) <s 0 \<longrightarrow>
            fst (snd (main good_i2c_bus dev argv)) ! a = ucast (fst (init_adt74x0 good_i2c_bus dev a start))
            \<and> fst (snd (main good_i2c_bus dev argv)) ! a <s 0
            \<and> filter (result_for a) (out (snd (snd (main good_i2c_bus dev argv)))) = []
            \<and> Read (Some a) T_MSB 2 \<notin> set (trace (snd (snd (main good_i2c_bus dev argv)))))
       \<and> prefix (trace (snd (init_adt74x0b lib a start))) (init_sequenceb a)
       \<and> (fst (init_adt74x0b lib a start) = 0 \<or> fst (init_adt74x0b lib a start) <s 0)
       \<and> (fst (init_adt74x0b lib a start) = 0 \<longrightarrow>
            trace (snd (init_adt74x0b lib a start)) = init_sequenceb a
            \<and> fst (snd (mainb debug lib)) ! a = 0)
       \<and> (fst (init_adt74x0b lib a start) <s 0 \<longrightarrow>
            fst (snd (mainb debug lib)) ! a = ucast (fst (init_adt74x0b lib a start))
            \<and> fst (snd (mainb debug lib)) ! a \<noteq> 0
            \<and> filter (result_for a) (out (snd (snd (mainb debug lib)))) = []
            \<and> Read (Some a) T_MSB 2 \<notin> set (trace (snd (snd (mainb debug lib)))))"
proof -
  have a: "a < I2C_ADDRS"
    using assms(1) by (rule window_less)
  have tA: "trace (snd (init_adt74x0 good_i2c_bus dev a start)) = init_ops good_i2c_bus dev a"
    and cA: "fst (init_adt74x0 good_i2c_bus dev a start) = init_code good_i2c_bus dev a"
    and tB: "trace (snd (init_adt74x0b lib a start)) = init_opsb lib a"
    and cB: "fst (init_adt74x0b lib a start) = init_codeb lib a"
    by (simp_all add: init_ops_def init_code_def init_opsb_def init_codeb_def)
  have A1: "prefix (init_ops good_i2c_bus dev a) (init_sequence good_i2c_bus a)"
    by (simp add: init_ops_eq init_sequence_def)
  have A2: "init_ops good_i2c_bus dev a = init_sequence good_i2c_bus a"
    if "init_code good_i2c_bus dev a = 0"
    using that by (auto simp: init_code_eq init_ops_eq init_sequence_def split: if_splits)
  have A3: "fst (snd (main good_i2c_bus dev argv)) ! a = 1"
    if "init_code good_i2c_bus dev a = 0"
    using that assms(1) by (simp add: main_devs [OF assms(2) a] recorded_def)
  have A4: "fst (snd (main good_i2c_bus dev argv)) ! a = ucast (init_code good_i2c_bus dev a)
            \<and> fst (snd (main good_i2c_bus dev argv)) ! a <s 0
            \<and> filter (result_for a) (out (snd (snd (main good_i2c_bus dev argv)))) = []
            \<and> Read (Some a) T_MSB 2 \<notin> set (trace (snd (snd (main good_i2c_bus dev argv))))"
    if n: "init_code good_i2c_bus dev a <s 0"
  proof -
    have ne: "\<not> eligible good_i2c_bus dev a"
      using n by (simp add: eligible_def)
    have r: "fst (snd (main good_i2c_bus dev argv)) ! a = ucast (init_code good_i2c_bus dev a)"
      using n assms(1) by (simp add: main_devs [OF assms(2) a] recorded_def)
    moreover have "(ucast (init_code good_i2c_bus dev a) :: 8 word) <s 0"
      using n init_code_cases [of good_i2c_bus dev a]
      by (auto simp: narrow_codes word_sless_alt)
    moreover have "filter (result_for a) (out (snd (snd (main good_i2c_bus dev argv)))) = []"
      using ne by (simp add: main_results_for [OF assms(2) a])
    moreover have "Read (Some a) T_MSB 2 \<notin> set (trace (snd (snd (main good_i2c_bus dev argv))))"
      using ne main_temp_read [of a good_i2c_bus dev argv] by blast
    ultimately show ?thesis by simp
  qed
  have B1: "prefix (init_opsb lib a) (init_sequenceb a)"
    by (simp add: init_opsb_eq init_sequenceb_def)
  have B2: "init_opsb lib a = init_sequenceb a" if "init_codeb lib a = 0"
  proof -
    have "b_reset lib a = 0 \<and> b_config lib a = 0"
      using that neg_codes(1) [of "b_reset lib a"] neg_codes(2) [of "b_config lib a"]
      unfolding init_codeb_eq by (auto simp only: word_sless_alt sint_0 split: if_splits)
    then show ?thesis by (simp add: init_opsb_eq init_sequenceb_def)
  qed
  have B3: "fst (snd (mainb debug lib)) ! a = 0" if "init_codeb lib a = 0"
    using that assms(1) by (simp add: mainb_devs [OF a] recordedb_def)
  have nz: "(ucast (init_codeb lib a) :: 8 word) \<noteq> 0" if n: "init_codeb lib a <s 0"
  proof -
    have "init_codeb lib a \<noteq> 0"
      using n by (auto simp: word_sless_alt)
    then have c: "b_reset lib a \<noteq> 0 \<or> b_config lib a \<noteq> 0 \<or> fst (b_idreg lib a) \<noteq> 0
       \<or> snd (b_idreg lib a) AND 0xf8 \<noteq> 0xc8"
      unfolding init_codeb_eq by (auto split: if_splits)
    show ?thesis
      unfolding narrow_init_codeb using c assms(3,4,5) id_codes(5)
      by (simp only: narrow_zero split: if_splits) blast
  qed
  have B4: "fst (snd (mainb debug lib)) ! a = ucast (init_codeb lib a)
            \<and> fst (snd (mainb debug lib)) ! a \<noteq> 0
            \<and> filter (result_for a) (out (snd (snd (mainb debug lib)))) = []
            \<and> Read (Some a) T_MSB 2 \<notin> set (trace (snd (snd (mainb debug lib))))"
    if n: "init_codeb lib a <s 0"
  proof -
    have ne: "\<not> eligibleb lib a"
      using nz [OF n] by (simp add: eligibleb_def)
    have r: "fst (snd (mainb debug lib)) ! a = ucast (init_codeb lib a)"
      using assms(1) by (simp add: mainb_devs [OF a] recordedb_def)
    moreover have "filter (result_for a) (out (snd (snd (mainb debug lib)))) = []"
      using ne by (simp add: mainb_results_for [OF a])
    moreover have "Read (Some a) T_MSB 2 \<notin> set (trace (snd (snd (mainb debug lib))))"
      using ne mainb_temp_read [of a debug lib] by blast
    ultimately show ?thesis using nz [OF n] by simp
  qed
  have N: "map fst (init_plan good_i2c_bus dev a) = init_sequence good_i2c_bus a"
    "trace (snd (init_adt74x0 good_i2c_bus dev a w)) =
       trace w @ upto_first_failure (init_plan good_i2c_bus dev a)"
    "fst (init_adt74x0 good_i2c_bus dev a w) = 0
       \<longleftrightarrow> list_all (\<lambda>s. \<not> snd s) (init_plan good_i2c_bus dev a)"
    "map fst (init_planb lib a) = init_sequenceb a"
    "trace (snd (init_adt74x0b lib a w)) = trace w @ upto_first_failure (init_planb lib a)"
    "fst (init_adt74x0b lib a w) = 0 \<longleftrightarrow> list_all (\<lambda>s. \<not> snd s) (init_planb lib a)"
    by (simp_all only: init_plan_sequence init_planb_sequence init_adt74x0_trace init_ops_plan
        init_adt74x0b_trace init_opsb_plan init_adt74x0_fst init_adt74x0b_fst init_code_plan
        init_codeb_plan)
  have C: "fst (init_adt74x0 good_i2c_bus dev a w) =
            (if k_ioctl_init dev a <s 0 then - 1
             else if k_reset dev a <s 0 then - 2
             else if good_i2c_bus \<and> k_idreg dev a <s 0 then - 3
             else if good_i2c_bus \<and> k_idreg dev a AND 0xf8 \<noteq> 0xc8 then - 4
             else if k_config dev a <s 0 then - 5 else 0)"
    "fst (init_adt74x0b lib a w) =
            (if b_reset lib a \<noteq> 0 then - (0x10 + ucast (b_reset lib a))
             else if b_config lib a \<noteq> 0 then - (0x20 + ucast (b_config lib a))
             else if fst (b_idreg lib a) \<noteq> 0 then - (0x30 + ucast (fst (b_idreg lib a)))
             else if snd (b_idreg lib a) AND 0xf8 \<noteq> 0xc8 then - 0x3f else 0)"
    by (simp_all only: init_adt74x0_fst init_adt74x0b_fst init_code_eq init_codeb_eq)
  have old: "prefix (init_ops good_i2c_bus dev a) (init_sequence good_i2c_bus a)
       \<and> (init_code good_i2c_bus dev a = 0 \<or> init_code good_i2c_bus dev a <s 0)
       \<and> (init_code good_i2c_bus dev a = 0 \<longrightarrow>
            init_ops good_i2c_bus dev a = init_sequence good_i2c_bus a
            \<and> fst (snd (main good_i2c_bus dev argv)) ! a = 1)
       \<and> (init_code good_i2c_bus dev a <s 0 \<longrightarrow>
            fst (snd (main good_i2c_bus dev argv)) ! a = ucast (init_code good_i2c_bus dev a)
            \<and> fst (snd (main good_i2c_bus dev argv)) ! a <s 0
            \<and> filter (result_for a) (out (snd (snd (main good_i2c_bus dev argv)))) = []
            \<and> Read (Some a) T_MSB 2 \<notin> set (trace (snd (snd (main good_i2c_bus dev argv)))))
       \<and> prefix (init_opsb lib a) (init_sequenceb a)
       \<and> (init_codeb lib a = 0 \<or> init_codeb lib a <s 0)
       \<and> (init_codeb lib a = 0 \<longrightarrow>
            init_opsb lib a = init_sequenceb a
            \<and> fst (snd (mainb debug lib)) ! a = 0)
       \<and> (init_codeb lib a <s 0 \<longrightarrow>
            fst (snd (mainb debug lib)) ! a = ucast (init_codeb lib a)
            \<and> fst (snd (mainb debug lib)) ! a \<noteq> 0
            \<and> filter (result_for a) (out (snd (snd (mainb debug lib)))) = []
            \<and> Read (Some a) T_MSB 2 \<notin> set (trace (snd (snd (mainb debug lib)))))"
    using A1 A2 A3 A4 B1 B2 B3 B4 init_code_sless [of good_i2c_bus dev a] init_codeb_sless [of lib a]
    by blast
  show ?thesis
    unfolding tA cA tB cB
    using N C old by blast
qed

text \<open>
  The theorem at 0x48 on the transports whose reset write fails there (the operations
  stop after the reset write) and on the transports where every call succeeds.
\<close>

theorem init_steps_witness:
  "window 0x48 \<and> \<not> k_open dev_reset_fails <s 0
   \<and> b_reset lib_reset_fails 0x48 \<noteq> 0xF0 \<and> b_config lib_reset_fails 0x48 \<noteq> 0xE0
   \<and> fst (b_idreg lib_reset_fails 0x48) \<noteq> 0xD0
   \<and> fst (init_adt74x0 False dev_reset_fails 0x48 start) <s 0
   \<and> fst (snd (main False dev_reset_fails [])) ! 0x48 = - 2
   \<and> Read (Some 0x48) T_MSB 2 \<notin> set (trace (snd (snd (main False dev_reset_fails []))))
   \<and> fst (init_adt74x0b lib_reset_fails 0x48 start) <s 0
   \<and> fst (snd (mainb False lib_reset_fails)) ! 0x48 = - 17
   \<and> Read (Some 0x48) T_MSB 2 \<notin> set (trace (snd (snd (mainb False lib_reset_fails))))
   \<and> trace (snd (init_adt74x0 False dev_reset_fails 0x48 start)) =
       [Select 0x48, Write (Some 0x48) [RESET]]
   \<and> trace (snd (init_adt74x0b lib_reset_fails 0x48 start)) =
       [Select 0x48, Write (Some 0x48) [RESET]]
   \<and> \<not> k_open dev_ok <s 0
   \<and> b_reset lib_ok 0x48 \<noteq> 0xF0 \<and> b_config lib_ok 0x48 \<noteq> 0xE0
   \<and> fst (b_idreg lib_ok 0x48) \<noteq> 0xD0
   \<and> fst (init_adt74x0 True dev_ok 0x48 start) = 0
   \<and> trace (snd (init_adt74x0 True dev_ok 0x48 start)) =
       [Select 0x48, Write (Some 0x48) [RESET], Wait 250, Read (Some 0x48) IDREG 1,
        Write (Some 0x48) [CONFIG, 0x80]]
   \<and> fst (snd (main True dev_ok [])) ! 0x48 = 1
   \<and> fst (init_adt74x0b lib_ok 0x48 start) = 0
   \<and> fst (snd (mainb False lib_ok)) ! 0x48 = 0"
proof -
  have h: "window 0x48" "\<not> k_open dev_reset_fails <s 0"
    "b_reset lib_reset_fails 0x48 \<noteq> 0xF0" "b_config lib_reset_fails 0x48 \<noteq> 0xE0"
    "fst (b_idreg lib_reset_fails 0x48) \<noteq> 0xD0"
    by (simp_all add: window_def sample_defs word_sless_alt)
  have k: "window 0x48" "\<not> k_open dev_ok <s 0"
    "b_reset lib_ok 0x48 \<noteq> 0xF0" "b_config lib_ok 0x48 \<noteq> 0xE0"
    "fst (b_idreg lib_ok 0x48) \<noteq> 0xD0"
    by (simp_all add: window_def sample_defs word_sless_alt)
  have c: "fst (init_adt74x0 False dev_reset_fails 0x48 start) = - 2"
    "fst (init_adt74x0b lib_reset_fails 0x48 start) = - 17"
    by (simp_all add: init_adt74x0_fst init_code_eq init_adt74x0b_fst init_codeb_eq sample_defs
        word_sless_alt)
  have n: "(- 2 :: 32 word) <s 0" "(- 17 :: 32 word) <s 0"
    "(ucast (- 2 :: 32 word) :: 8 word) = - 2" "(ucast (- 17 :: 32 word) :: 8 word) = - 17"
    by (simp_all add: word_sless_alt narrow_codes)
  have p: "upto_first_failure (init_plan False dev_reset_fails 0x48) =
        [Select 0x48, Write (Some 0x48) [RESET]]"
    "upto_first_failure (init_planb lib_reset_fails 0x48) = [Select 0x48, Write (Some 0x48) [RESET]]"
    "upto_first_failure (init_plan True dev_ok 0x48) =
        [Select 0x48, Write (Some 0x48) [RESET], Wait 250, Read (Some 0x48) IDREG 1,
         Write (Some 0x48) [CONFIG, 0x80]]"
    "list_all (\<lambda>s. \<not> snd s) (init_plan True dev_ok 0x48)"
    "list_all (\<lambda>s. \<not> snd s) (init_planb lib_ok 0x48)"
    by (simp_all add: init_plan_def init_planb_def sample_defs word_sless_alt)
  have fails: "fst (init_adt74x0 False dev_reset_fails 0x48 start) <s 0
   \<and> fst (snd (main False dev_reset_fails [])) ! 0x48 = - 2
   \<and> Read (Some 0x48) T_MSB 2 \<notin> set (trace (snd (snd (main False dev_reset_fails []))))
   \<and> fst (init_adt74x0b lib_reset_fails 0x48 start) <s 0
   \<and> fst (snd (mainb False lib_reset_fails)) ! 0x48 = - 17
   \<and> Read (Some 0x48) T_MSB 2 \<notin> set (trace (snd (snd (mainb False lib_reset_fails))))
   \<and> trace (snd (init_adt74x0 False dev_reset_fails 0x48 start)) =
       [Select 0x48, Write (Some 0x48) [RESET]]
   \<and> trace (snd (init_adt74x0b lib_reset_fails 0x48 start)) =
       [Select 0x48, Write (Some 0x48) [RESET]]"
    using init_steps [OF h, where good_i2c_bus = False and argv = "[]" and debug = False
        and w = start] n p(1,2)
    unfolding c by (simp add: start_def)
  have z: "fst (init_adt74x0 True dev_ok 0x48 start) = 0" "fst (init_adt74x0b lib_ok 0x48 start) = 0"
    using init_steps [OF k, where good_i2c_bus = True and argv = "[]" and debug = False
        and w = start] p(4,5)
    by blast+
  have succeeds: "trace (snd (init_adt74x0 True dev_ok 0x48 start)) =
       [Select 0x48, Write (Some 0x48) [RESET], Wait 250, Read (Some 0x48) IDREG 1,
        Write (Some 0x48) [CONFIG, 0x80]]
   \<and> fst (snd (main True dev_ok [])) ! 0x48 = 1
   \<and> fst (snd (mainb False lib_ok)) ! 0x48 = 0"
    using init_steps [OF k, where good_i2c_bus = True and argv = "[]" and debug = False
        and w = start] z p(3)
    by (simp add: start_def)
  show ?thesis
    using h k fails z succeeds by blast
qed

text \<open>
  C6 as stated fails on the order of the steps: with every call successful, the
  hardware-library variant writes the configuration before it reads the identity
  register.
\<close>

theorem init_order_counterexample:
  "fst (init_adt74x0b lib_ok 0x48 start) = 0
   \<and> trace (snd (init_adt74x0b lib_ok 0x48 start)) =
       [Select 0x48, Write (Some 0x48) [RESET], Wait 1000, Write (Some 0x48) [CONFIG, 0x80],
        Read (Some 0x48) IDREG 1]"
  by (simp add: init_adt74x0b_fst init_adt74x0b_trace init_codeb_eq init_opsb_eq sample_defs
      start_def)

section \<open>Error codes in the output\<close>

text \<open>
  C7, amended. The code of an error line names the step of the read that failed, not
  the value the transport returned. In the generic variant it is -1 when the address
  selection failed and -6 when the word read failed, whatever negative value the
  transport returned. In the hardware-library variant it is \<open>- (0x40 + s)\<close> for the
  reason code \<open>s\<close> of the failed read, from which \<open>s\<close> can be recovered. Codes of failed
  initialisations are not printed in result lines.
\<close>

theorem error_codes:
  "(ErrorLine i c \<in> set (out (snd (snd (main good_i2c_bus dev argv)))) \<longrightarrow>
      (c = - 1 \<and> k_ioctl_read dev i <s 0)
      \<or> (c = - 6 \<and> \<not> k_ioctl_read dev i <s 0 \<and> k_t_msb dev i <s 0))
   \<and> (ErrorLine i c \<in> set (out (snd (snd (mainb debug lib)))) \<longrightarrow>
      fst (b_t_msb lib i) \<noteq> 0 \<and> c = - (0x40 + ucast (fst (b_t_msb lib i))))"
proof -
  have A: "(c = - 1 \<and> k_ioctl_read dev i <s 0)
      \<or> (c = - 6 \<and> \<not> k_ioctl_read dev i <s 0 \<and> k_t_msb dev i <s 0)"
    if "ErrorLine i c \<in> set (out (snd (snd (main good_i2c_bus dev argv))))"
  proof -
    from that
    have m: "ErrorLine i c \<in> set (filter is_error (out (snd (snd (main good_i2c_bus dev argv)))))"
      and o: "\<not> k_open dev <s 0"
      using main_no_error_on_fail [of dev i c good_i2c_bus argv] by auto
    from m have "c = read_code dev i" "read_code dev i <s 0"
      unfolding main_errors [OF o] by (auto split: if_splits)
    then show ?thesis
      by (auto simp: read_code_eq split: if_splits)
  qed
  have B: "fst (b_t_msb lib i) \<noteq> 0 \<and> c = - (0x40 + ucast (fst (b_t_msb lib i)))"
    if "ErrorLine i c \<in> set (out (snd (snd (mainb debug lib))))"
  proof -
    from that
    have "ErrorLine i c \<in> set (filter is_error (out (snd (snd (mainb debug lib)))))"
      by simp
    then have "c = read_codeb lib i" "read_codeb lib i <s 0"
      unfolding mainb_errors by (auto split: if_splits)
    then show ?thesis
      using read_codeb_sless [of lib i] by (simp only: read_codeb_eq) (simp del: minus_add_distrib)
  qed
  show ?thesis
    using A B by blast
qed

text \<open>The theorem on the transports whose temperature read fails at 0x48.\<close>

theorem error_codes_witness:
  "ErrorLine 0x48 (- 6) \<in> set (out (snd (snd (main False dev_read_fails []))))
   \<and> k_t_msb dev_read_fails 0x48 <s 0
   \<and> ErrorLine 0x48 (- 65) \<in> set (out (snd (snd (mainb False lib_read_fails))))
   \<and> fst (b_t_msb lib_read_fails 0x48) = 1"
proof -
  have "ErrorLine 0x48 (- 6) \<in> set (out (snd (snd (main False dev_read_fails []))))"
    by (subst error_line_mem) (simp add: dev_read_fails_errors)
  moreover have "ErrorLine 0x48 (- 65) \<in> set (out (snd (snd (mainb False lib_read_fails))))"
    by (subst error_line_mem) (simp add: lib_read_fails_errors)
  ultimately show ?thesis
    using error_codes [of "0x48" "- 6" False dev_read_fails "[]" False lib_read_fails]
      error_codes [of "0x48" "- 65" False dev_read_fails "[]" False lib_read_fails]
    by (simp add: sample_defs)
qed

text \<open>
  C7 as stated fails: the word read at 0x48 returns -121, the line printed for 0x48 is
  \<^verbatim>\<open># 0x48 error -6\<close>.
\<close>

theorem verbatim_codes_counterexample:
  "k_t_msb dev_read_fails 0x48 = - 121
   \<and> filter is_error (out (snd (snd (main False dev_read_fails [])))) = [ErrorLine 0x48 (- 6)]
   \<and> render (ErrorLine 0x48 (- 6)) = ''# 0x48 error -6'' @ nl"
  using dev_read_fails_errors error_text by (simp add: sample_defs)

section \<open>Independence of the addresses\<close>

text \<open>
  C8. Take two runs whose transports give the same answers for every address except
  \<open>a0\<close> (and the same answer to opening the device file). For every other candidate
  address \<open>b\<close>, the status recorded in \<^verbatim>\<open>devs[b]\<close> and the printed lines about \<open>b\<close>
  are the same in both runs, in either variant.
\<close>

theorem per_address_independence:
  assumes "k_open d1 = k_open d2"
    and "agree_except a0 d1 d2"
    and "agree_exceptb a0 l1 l2"
    and "window b" "b \<noteq> a0"
  shows "fst (snd (main good_i2c_bus d1 argv)) ! b = fst (snd (main good_i2c_bus d2 argv)) ! b
       \<and> filter (\<lambda>l. line_addr l = Some b) (out (snd (snd (main good_i2c_bus d1 argv))))
           = filter (\<lambda>l. line_addr l = Some b) (out (snd (snd (main good_i2c_bus d2 argv))))
       \<and> fst (snd (mainb debug l1)) ! b = fst (snd (mainb debug l2)) ! b
       \<and> filter (\<lambda>l. line_addr l = Some b) (out (snd (snd (mainb debug l1))))
           = filter (\<lambda>l. line_addr l = Some b) (out (snd (snd (mainb debug l2))))"
proof -
  have b: "b < I2C_ADDRS"
    using assms(4) by (rule window_less)
  have s: "same_at d1 d2 b" "same_atb l1 l2 b"
    using assms(2,3,5) b by (simp_all add: agree_except_def agree_exceptb_def)
  have A: "fst (snd (main good_i2c_bus d1 argv)) ! b = fst (snd (main good_i2c_bus d2 argv)) ! b
       \<and> filter (\<lambda>l. line_addr l = Some b) (out (snd (snd (main good_i2c_bus d1 argv))))
           = filter (\<lambda>l. line_addr l = Some b) (out (snd (snd (main good_i2c_bus d2 argv))))"
  proof (cases "k_open d1 <s 0")
    case True
    then have "k_open d2 <s 0" using assms(1) by simp
    then show ?thesis using True by (simp add: main_fail)
  next
    case False
    then have o: "\<not> k_open d1 <s 0" "\<not> k_open d2 <s 0" using assms(1) by simp_all
    show ?thesis
      by (simp add: main_devs [OF o(1) b] main_devs [OF o(2) b] main_lines_about [OF o(1) b]
          main_lines_about [OF o(2) b] recorded_def eligible_def same_at_summaries [OF s(1)])
  qed
  have B: "fst (snd (mainb debug l1)) ! b = fst (snd (mainb debug l2)) ! b
       \<and> filter (\<lambda>l. line_addr l = Some b) (out (snd (snd (mainb debug l1))))
           = filter (\<lambda>l. line_addr l = Some b) (out (snd (snd (mainb debug l2))))"
    by (simp add: mainb_devs [OF b] mainb_lines_about [OF b] recordedb_def eligibleb_def
        debug_lines_def same_atb_summaries [OF s(2)])
  show ?thesis
    using A B by blast
qed

text \<open>
  The theorem for a reset write that fails at 0x48 in one run and succeeds in the other,
  observed at 0x49.
\<close>

theorem per_address_independence_witness:
  "k_open dev_ok = k_open dev_reset_fails
   \<and> agree_except 0x48 dev_ok dev_reset_fails
   \<and> agree_exceptb 0x48 lib_ok lib_reset_fails
   \<and> \<not> same_at dev_ok dev_reset_fails 0x48 \<and> \<not> same_atb lib_ok lib_reset_fails 0x48
   \<and> window 0x49 \<and> (0x49 :: nat) \<noteq> 0x48
   \<and> fst (snd (main False dev_ok [])) ! 0x49 = fst (snd (main False dev_reset_fails [])) ! 0x49
   \<and> filter (\<lambda>l. line_addr l = Some 0x49) (out (snd (snd (main False dev_ok []))))
       = filter (\<lambda>l. line_addr l = Some 0x49) (out (snd (snd (main False dev_reset_fails []))))
   \<and> fst (snd (mainb False lib_ok)) ! 0x49 = fst (snd (mainb False lib_reset_fails)) ! 0x49
   \<and> filter (\<lambda>l. line_addr l = Some 0x49) (out (snd (snd (mainb False lib_ok))))
       = filter (\<lambda>l. line_addr l = Some 0x49) (out (snd (snd (mainb False lib_reset_fails))))"
proof -
  have h: "k_open dev_ok = k_open dev_reset_fails"
    "agree_except 0x48 dev_ok dev_reset_fails"
    "agree_exceptb 0x48 lib_ok lib_reset_fails"
    "window 0x49" "(0x49 :: nat) \<noteq> 0x48"
    by (simp_all add: sample_defs agree_except_def agree_exceptb_def same_at_def same_atb_def
        window_def)
  have d: "\<not> same_at dev_ok dev_reset_fails 0x48" "\<not> same_atb lib_ok lib_reset_fails 0x48"
    by (simp_all add: sample_defs same_at_def same_atb_def)
  show ?thesis
    using per_address_independence [OF h, of False "[]" False] h d
    by blast
qed


section \<open>The temperature output of a read\<close>

text \<open>
  C10. \<^verbatim>\<open>read_adt74x0\<close> returns 0 or a negative code, in both variants. On a negative
  code the caller's temperature is what it was before the call; on 0 it is the decoded
  temperature. Starting from an unwritten location, the location is written exactly
  when the function returns 0.
\<close>

theorem read_atomic:
  "(let r = read_adt74x0 dev a t w in
      (fst r = 0 \<or> fst r <s 0)
      \<and> (fst r <s 0 \<longrightarrow> fst (snd r) = t)
      \<and> (fst r = 0 \<longrightarrow> fst (snd r) = Some (celsius (t128_of_word (k_t_msb dev a)))))
   \<and> (let r = read_adt74x0b lib a t w in
      (fst r = 0 \<or> fst r <s 0)
      \<and> (fst r <s 0 \<longrightarrow> fst (snd r) = t)
      \<and> (fst r = 0 \<longrightarrow> fst (snd r) =
            Some (celsius (t128_of_buff (fst (snd (b_t_msb lib a))) (snd (snd (b_t_msb lib a)))))))
   \<and> (fst (snd (read_adt74x0 dev a None w)) \<noteq> None \<longleftrightarrow> fst (read_adt74x0 dev a None w) = 0)
   \<and> (fst (snd (read_adt74x0b lib a None w)) \<noteq> None \<longleftrightarrow> fst (read_adt74x0b lib a None w) = 0)"
proof -
  have n: "(- 1 :: 32 word) <s 0" "(- 6 :: 32 word) <s 0" "\<not> (0 :: 32 word) <s 0"
    "(- 1 :: 32 word) \<noteq> 0" "(- 6 :: 32 word) \<noteq> 0"
    by (simp_all add: word_sless_alt)
  have nb: "- (0x40 + ucast r :: 32 word) \<noteq> 0" for r :: "8 word"
    using neg_codes(4) [of r] n(3) by metis
  have A: "read_adt74x0 dev a t w =
     (if k_ioctl_read dev a <s 0 then (- 1, t, snd (ioctl_I2C_SLAVE (k_ioctl_read dev a) a w))
      else if k_t_msb dev a <s 0
        then (- 6, t, snd (i2c_smbus_read_word_data (k_t_msb dev a) T_MSB
                            (snd (ioctl_I2C_SLAVE (k_ioctl_read dev a) a w))))
        else (0, Some (celsius (t128_of_word (k_t_msb dev a))),
               snd (i2c_smbus_read_word_data (k_t_msb dev a) T_MSB
                            (snd (ioctl_I2C_SLAVE (k_ioctl_read dev a) a w)))))" for t
    by (simp add: read_adt74x0_def Let_def ioctl_I2C_SLAVE_def i2c_smbus_read_word_data_def)
  have B: "read_adt74x0b lib a t w =
     (if fst (b_t_msb lib a) \<noteq> 0
      then (- (0x40 + ucast (fst (b_t_msb lib a))), t,
            snd (bcm2835_i2c_read_register_rs (b_t_msb lib a) T_MSB 2
                  (bcm2835_i2c_setSlaveAddress a w)))
      else (0, Some (celsius (t128_of_buff (fst (snd (b_t_msb lib a))) (snd (snd (b_t_msb lib a))))),
            snd (bcm2835_i2c_read_register_rs (b_t_msb lib a) T_MSB 2
                  (bcm2835_i2c_setSlaveAddress a w))))" for t
    by (simp add: read_adt74x0b_def Let_def bcm2835_i2c_read_register_rs_def split: prod.splits
        del: minus_add_distrib)
  show ?thesis
    unfolding A B Let_def using n nb neg_codes(4) by (simp del: minus_add_distrib)
qed

text \<open>
  The theorem on a failing and on a successful read at 0x48, the location holding 5
  before the call.
\<close>

theorem read_atomic_witness:
  "fst (read_adt74x0 dev_read_fails 0x48 (Some 5) start) <s 0
   \<and> fst (snd (read_adt74x0 dev_read_fails 0x48 (Some 5) start)) = Some 5
   \<and> fst (read_adt74x0 dev_ok 0x48 (Some 5) start) = 0
   \<and> fst (snd (read_adt74x0 dev_ok 0x48 (Some 5) start)) = Some (47 / 2)
   \<and> fst (read_adt74x0b lib_read_fails 0x48 (Some 5) start) <s 0
   \<and> fst (snd (read_adt74x0b lib_read_fails 0x48 (Some 5) start)) = Some 5
   \<and> fst (read_adt74x0b lib_ok 0x48 (Some 5) start) = 0
   \<and> fst (snd (read_adt74x0b lib_ok 0x48 (Some 5) start)) = Some (47 / 2)"
proof -
  have "fst (read_adt74x0 dev_read_fails 0x48 (Some 5) start) <s 0"
    by (simp add: read_adt74x0_fst read_code_eq sample_defs word_sless_alt)
  moreover have "fst (read_adt74x0 dev_ok 0x48 (Some 5) start) = 0"
    by (simp add: read_adt74x0_fst read_code_eq sample_defs word_sless_alt)
  moreover have "fst (read_adt74x0b lib_read_fails 0x48 (Some 5) start) <s 0"
    by (simp add: read_adt74x0b_fst read_codeb_sless sample_defs)
  moreover have "fst (read_adt74x0b lib_ok 0x48 (Some 5) start) = 0"
    by (simp add: read_adt74x0b_fst read_codeb_eq sample_defs)
  moreover have "k_t_msb dev_ok 0x48 = 0xc00b" "b_t_msb lib_ok 0x48 = (0, 0x0b, 0xc0)"
    by (simp_all add: sample_defs)
  ultimately show ?thesis
    using read_atomic [of dev_read_fails "0x48" "Some 5" start lib_read_fails]
      read_atomic [of dev_ok "0x48" "Some 5" start lib_ok]
    by (simp add: Let_def sample_temperature)
qed

end
